theory Spec2Isabelle
  imports Main "HOL-Library.Word"
begin

section \<open>EXLA client layer (exla\_client.cc): data model\<close>

text \<open>
  The file \<^verbatim>\<open>exla/c_src/exla/exla_client.cc\<close> sits between the Erlang VM (NIF terms)
  and the XLA PjRt runtime. The embedding keeps both neighbours explicit:
  \<^item> NIF terms are a datatype with list cells, tuples, binaries and the two resource
    kinds the file reads (\<^verbatim>\<open>ExlaBuffer*\<close> and \<^verbatim>\<open>xla::Shape\<close>);
  \<^item> the PjRt runtime is a record of response functions. Every call the source makes
    into the runtime is appended to the \<open>calls\<close> log of the world, in program order,
    and the runtime's response may depend on all calls made before.
\<close>

subsection \<open>Status values\<close>

type_synonym byte = "8 word"
type_synonym int64 = "64 word"

datatype status_code =
    CANCELLED | UNKNOWN | INVALID_ARGUMENT | DEADLINE_EXCEEDED | NOT_FOUND
  | ALREADY_EXISTS | PERMISSION_DENIED | RESOURCE_EXHAUSTED | FAILED_PRECONDITION
  | ABORTED | OUT_OF_RANGE | UNIMPLEMENTED | INTERNAL | UNAVAILABLE | DATA_LOSS
  | UNAUTHENTICATED

text \<open>
  A failure is a non-OK \<^verbatim>\<open>xla::Status\<close> (code and message), or the function does not
  return to its caller at all (\<open>Abort\<close>: an exception that nothing catches, a read past
  the end of an array).
\<close>

datatype failure = Status status_code string | Abort string

text \<open>
  \<^verbatim>\<open>xla::StatusOr<T>\<close>: \<open>Inl\<close> the failure, \<open>Inr\<close> the value.
  \<^verbatim>\<open>xla::Status\<close>: \<open>Inr ()\<close> is \<^verbatim>\<open>Status::OK()\<close>.
\<close>

type_synonym 'a statusor = "failure + 'a"
type_synonym status = "unit statusor"

abbreviation OK :: status where
  "OK \<equiv> Inr ()"

definition InvalidArgument :: "string \<Rightarrow> failure" where
  "InvalidArgument msg = Status INVALID_ARGUMENT msg"

definition FailedPrecondition :: "string \<Rightarrow> failure" where
  "FailedPrecondition msg = Status FAILED_PRECONDITION msg"

subsection \<open>Shapes and literals (XLA library types)\<close>

datatype primitive_type =
    PRIMITIVE_TYPE_INVALID | PRED | S8 | S16 | S32 | S64 | U8 | U16 | U32 | U64
  | F16 | F32 | BF16 | F64 | C64 | C128 | TUPLE | OPAQUE_TYPE | TOKEN

text \<open>
  \<^verbatim>\<open>xla::Shape\<close>: element type, dimensions, an optional layout (the minor-to-major
  order of the dimensions) and, for a tuple, the shapes of its elements.
\<close>

datatype shape =
  Shape (element_type: primitive_type) (dimensions: "int64 list")
        (layout: "nat list option") (tuple_shapes: "shape list")

definition IsTuple :: "shape \<Rightarrow> bool" where
  "IsTuple s = (element_type s = TUPLE)"

text \<open>\<^verbatim>\<open>ShapeUtil::IsNestedTuple\<close>: a tuple one of whose elements is a tuple.\<close>

definition IsNestedTuple :: "shape \<Rightarrow> bool" where
  "IsNestedTuple s = (IsTuple s \<and> list_ex IsTuple (tuple_shapes s))"

text \<open>
  \<^verbatim>\<open>ShapeUtil::MakeShape(element_type, dimensions)\<close>: an array shape with the default
  (row-major) layout, whose minor-to-major order is \<open>n-1, ..., 0\<close>. The validation XLA
  runs inside \<^verbatim>\<open>MakeShape\<close> is not part of this file and is not modelled.
\<close>

definition MakeShape :: "primitive_type \<Rightarrow> int64 list \<Rightarrow> shape" where
  "MakeShape et dims = Shape et dims (Some (rev [0..<length dims])) []"

text \<open>\<^verbatim>\<open>LayoutUtil::ClearLayout\<close>: drops the layout of the shape and of every tuple element.\<close>

fun ClearLayout :: "shape \<Rightarrow> shape" where
  "ClearLayout (Shape et dims l ts) = Shape et dims None (map ClearLayout ts)"

text \<open>
  \<^verbatim>\<open>LayoutUtil::LayoutsInShapesEqual\<close>: tuples are compared element by element, arrays
  by rank and layout, and the layout of any other shape is ignored.
\<close>

function LayoutsInShapesEqual :: "shape \<Rightarrow> shape \<Rightarrow> bool" where
  "LayoutsInShapesEqual (Shape et dims l ts) rhs =
     (if et = TUPLE then
        IsTuple rhs \<and> length ts = length (tuple_shapes rhs) \<and>
        list_all (\<lambda>(a, b). LayoutsInShapesEqual a b) (zip ts (tuple_shapes rhs))
      else if et \<notin> {PRIMITIVE_TYPE_INVALID, TUPLE, OPAQUE_TYPE, TOKEN} then
        length dims = length (dimensions rhs) \<and> l = layout rhs
      else True)"
  by pat_completeness auto
termination
proof (relation "measure (\<lambda>(lhs, rhs). size lhs)", goal_cases)
  case 1
  show ?case by simp
next
  case (2 et dims l ts rhs x a b)
  then have "a \<in> set ts"
    by (auto dest: set_zip_leftD)
  then have "size a \<le> size_list size ts"
    by (rule size_list_estimation') simp
  then show ?case
    by simp
qed

text \<open>
  \<^verbatim>\<open>xla::Literal\<close>: a shape and the bytes of the value in host memory.
  \<^verbatim>\<open>size_bytes()\<close> is the number of those bytes, as an \<^verbatim>\<open>int64\<close>.
\<close>

datatype literal = Literal (literal_shape: shape) (untyped_data: "byte list")

definition size_bytes :: "literal \<Rightarrow> int64" where
  "size_bytes l = word_of_nat (length (untyped_data l))"

text \<open>
  \<^verbatim>\<open>xla::BorrowingLiteral\<close>: a shape and pointers into host memory owned by the caller,
  one per tuple element (one in all for a non-tuple shape). The pointers are modelled
  by the binaries they point into.
\<close>

datatype borrowing_literal = BorrowingLiteral "byte list list" shape

subsection \<open>PjRt handles and the objects of this layer\<close>

datatype pjrt_device = PjRtDevice nat

datatype pjrt_buffer = PjRtBuffer (buffer_id: nat) (on_device_shape: shape)

datatype pjrt_executable = PjRtExecutable nat

datatype xla_computation = XlaComputation nat

datatype executable_build_options = ExecutableBuildOptions nat

record execute_options =
  untuple_result :: bool
  strict_shape_checking :: bool

record compile_options =
  argument_layouts :: "shape list"
  parameter_is_tupled_arguments :: bool
  executable_build_options :: executable_build_options
  compile_portable_executable :: bool

text \<open>
  \<^verbatim>\<open>ExlaBuffer\<close> owns one PjRt buffer (the member \<^verbatim>\<open>buffer_\<close>, a
  \<^verbatim>\<open>std::unique_ptr\<close>) and carries the flag \<^verbatim>\<open>can_be_released_after_run_\<close> set by
  its constructor. The fields are named after the accessors \<^verbatim>\<open>buffer()\<close> and
  \<^verbatim>\<open>release_after_run()\<close> that return them. Neither field changes after
  construction, so the object is identified with its two fields.
\<close>

record exla_buffer =
  buffer :: pjrt_buffer
  release_after_run :: bool

subsection \<open>NIF terms\<close>

datatype nif_term =
    TNil
  | TCons nif_term nif_term
  | TTuple "nif_term list"
  | TBinary "byte list"
  | TInt int
  | TAtom string
  | TBufferResource exla_buffer
  | TShapeResource shape

text \<open>\<^verbatim>\<open>enif_get_list_length\<close>: fails unless the term is a proper list.\<close>

fun enif_get_list_length :: "nif_term \<Rightarrow> nat option" where
  "enif_get_list_length TNil = Some 0"
| "enif_get_list_length (TCons h t) = map_option Suc (enif_get_list_length t)"
| "enif_get_list_length _ = None"

text \<open>
  \<^verbatim>\<open>enif_get_tuple\<close>, and the readers of \<^verbatim>\<open>exla_nif_util.h\<close>: \<^verbatim>\<open>nif::get_binary\<close>,
  \<^verbatim>\<open>nif::get<xla::Shape>\<close> and \<^verbatim>\<open>nif::get<ExlaBuffer*>\<close>. Each succeeds on terms of
  its own kind only.
\<close>

definition enif_get_tuple :: "nif_term \<Rightarrow> nif_term list option" where
  "enif_get_tuple t = (case t of TTuple elems \<Rightarrow> Some elems | _ \<Rightarrow> None)"

definition get_binary :: "nif_term \<Rightarrow> byte list option" where
  "get_binary t = (case t of TBinary data \<Rightarrow> Some data | _ \<Rightarrow> None)"

definition get_shape :: "nif_term \<Rightarrow> shape option" where
  "get_shape t = (case t of TShapeResource sh \<Rightarrow> Some sh | _ \<Rightarrow> None)"

definition get_buffer :: "nif_term \<Rightarrow> exla_buffer option" where
  "get_buffer t = (case t of TBufferResource buf \<Rightarrow> Some buf | _ \<Rightarrow> None)"

text \<open>
  \<^verbatim>\<open>tuple[i]\<close> on the array \<^verbatim>\<open>enif_get_tuple\<close> returns: the source does not compare
  \<open>i\<close> with the arity, and an index past the end reads outside the array.
\<close>

definition tuple_elem :: "nif_term list \<Rightarrow> nat \<Rightarrow> nif_term statusor" where
  "tuple_elem elems i =
     (if i < length elems then Inr (elems ! i)
      else Inl (Abort ''tuple element read past the arity''))"

text \<open>\<^verbatim>\<open>enif_make_list_from_array\<close>.\<close>

definition enif_make_list_from_array :: "nif_term list \<Rightarrow> nif_term" where
  "enif_make_list_from_array ts = foldr TCons ts TNil"

text \<open>
  Modelled from the spec: \<^verbatim>\<open>nif::ok\<close> of \<^verbatim>\<open>exla_nif_util.h\<close> is not among the
  sources. "Result: an ordered sequence of outputs tagged with a success marker."
\<close>

definition nif_ok :: "nif_term \<Rightarrow> nif_term" where
  "nif_ok t = TTuple [TAtom ''ok'', t]"

subsection \<open>The runtime and the world\<close>

datatype pjrt_call =
    CLookupDevice int
  | CBufferFromHostBuffer "byte list" shape pjrt_device
  | CBlockHostUntilReady pjrt_buffer
  | CToLiteral pjrt_buffer
  | CDelete pjrt_buffer
  | CDestroy pjrt_buffer
  | CExecutePortable pjrt_executable "pjrt_buffer list" pjrt_device execute_options
  | CExecute pjrt_executable "pjrt_buffer list list" execute_options
  | CCompile xla_computation compile_options
  | CExecutableFingerprint pjrt_executable
  | CTransferToInfeed pjrt_device borrowing_literal
  | CTransferFromOutfeed pjrt_device shape

text \<open>
  What the runtime answers. \<open>rt_LookupDevice\<close> is the \<^verbatim>\<open>const\<close> method
  \<^verbatim>\<open>PjRtClient::LookupDevice\<close>: the devices of a client are fixed when it is created.
  Every other response takes the calls made so far as its first argument.
  \<open>rt_Relayout\<close> is \<^verbatim>\<open>Literal::Relayout\<close>, a function of its arguments only.
  \<open>rt_TransferFromOutfeed\<close> answers with the status and with the contents of the
  literal the device has filled.
\<close>

record pjrt_runtime =
  rt_LookupDevice :: "int \<Rightarrow> pjrt_device statusor"
  rt_BufferFromHostBuffer ::
    "pjrt_call list \<Rightarrow> byte list \<Rightarrow> shape \<Rightarrow> pjrt_device \<Rightarrow> pjrt_buffer statusor"
  rt_BlockHostUntilReady :: "pjrt_call list \<Rightarrow> pjrt_buffer \<Rightarrow> status"
  rt_ToLiteral :: "pjrt_call list \<Rightarrow> pjrt_buffer \<Rightarrow> literal statusor"
  rt_Relayout :: "literal \<Rightarrow> shape \<Rightarrow> literal"
  rt_ExecutePortable ::
    "pjrt_call list \<Rightarrow> pjrt_executable \<Rightarrow> pjrt_buffer list \<Rightarrow> pjrt_device \<Rightarrow>
     execute_options \<Rightarrow> pjrt_buffer list statusor"
  rt_Execute ::
    "pjrt_call list \<Rightarrow> pjrt_executable \<Rightarrow> pjrt_buffer list list \<Rightarrow> execute_options \<Rightarrow>
     pjrt_buffer list list statusor"
  rt_Compile :: "pjrt_call list \<Rightarrow> xla_computation \<Rightarrow> compile_options \<Rightarrow> pjrt_executable statusor"
  rt_ExecutableFingerprint :: "pjrt_call list \<Rightarrow> pjrt_executable \<Rightarrow> string option statusor"
  rt_TransferToInfeed :: "pjrt_call list \<Rightarrow> pjrt_device \<Rightarrow> borrowing_literal \<Rightarrow> status"
  rt_TransferFromOutfeed :: "pjrt_call list \<Rightarrow> pjrt_device \<Rightarrow> shape \<Rightarrow> status \<times> literal"

text \<open>
  \<^verbatim>\<open>ExlaClient\<close> holds the PjRt client (member \<^verbatim>\<open>client_\<close>, accessor \<^verbatim>\<open>client()\<close>).
  \<^verbatim>\<open>ExlaExecutable\<close> holds the compiled executable, the optional fingerprint and a
  pointer to the client that compiled it (members \<^verbatim>\<open>executable_\<close>,
  \<^verbatim>\<open>fingerprint_\<close>, \<^verbatim>\<open>client_\<close>).
\<close>

record exla_client =
  client :: pjrt_runtime

record exla_executable =
  executable :: pjrt_executable
  fingerprint :: "string option"
  exe_client :: exla_client

text \<open>
  The world: the log of runtime calls, oldest first, and the \<^verbatim>\<open>ExlaBuffer\<close> objects
  that have been wrapped as resource terms (\<^verbatim>\<open>nif::make<ExlaBuffer*>\<close>), which the VM
  tracks and garbage-collects from then on.
\<close>

record world =
  calls :: "pjrt_call list"
  resources :: "exla_buffer list"

type_synonym 'a nif = "world \<Rightarrow> 'a \<times> world"

definition invoke :: "pjrt_call \<Rightarrow> world \<Rightarrow> world" where
  "invoke c w = w\<lparr>calls := calls w @ [c]\<rparr>"

text \<open>The calls made between an earlier world and a later one.\<close>

definition calls_since :: "world \<Rightarrow> world \<Rightarrow> pjrt_call list" where
  "calls_since w w' = drop (length (calls w)) (calls w')"

text \<open>
  Modelled from the spec: the macros \<^verbatim>\<open>EXLA_ASSIGN_OR_RETURN\<close>,
  \<^verbatim>\<open>EXLA_EFFECT_OR_RETURN\<close> and their \<^verbatim>\<open>_NIF\<close> variants are defined in
  \<^verbatim>\<open>exla_nif_util.h\<close>, which is not among the sources. Following "any failure at
  decode, device lookup, execution, or readback aborts the call and surfaces the backend
  error", each of them returns from the enclosing function with the failure of its
  operand, and otherwise continues with the operand's value.
\<close>

definition ASSIGN_OR_RETURN ::
  "'a statusor nif \<Rightarrow> ('a \<Rightarrow> 'b statusor nif) \<Rightarrow> 'b statusor nif" where
  "ASSIGN_OR_RETURN rexpr rest w =
     (case rexpr w of (Inl e, w') \<Rightarrow> (Inl e, w') | (Inr v, w') \<Rightarrow> rest v w')"

definition EFFECT_OR_RETURN :: "status nif \<Rightarrow> 'b statusor nif \<Rightarrow> 'b statusor nif" where
  "EFFECT_OR_RETURN rexpr rest w =
     (case rexpr w of (Inl e, w') \<Rightarrow> (Inl e, w') | (Inr u, w') \<Rightarrow> rest w')"

definition return :: "'a \<Rightarrow> 'a statusor nif" where
  "return v w = (Inr v, w)"

definition fail :: "failure \<Rightarrow> 'a statusor nif" where
  "fail e w = (Inl e, w)"

text \<open>
  Modelled from the spec: \<^verbatim>\<open>nif::make<ExlaBuffer*>\<close> of \<^verbatim>\<open>exla_nif_util.h\<close> is not
  among the sources. It makes the object a resource term: "expose it as a tracked handle
  to the caller"; "all handles are opaque references tracked by the caller's
  resource-management layer".
\<close>

definition make_buffer :: "exla_buffer \<Rightarrow> nif_term nif" where
  "make_buffer buf w = (TBufferResource buf, w\<lparr>resources := resources w @ [buf]\<rparr>)"

subsection \<open>Calls into the runtime\<close>

text \<open>
  A device id is a C++ \<^verbatim>\<open>int\<close>. The file compares it with 0 and passes it on, and
  computes nothing from it, so it is modelled as an integer.
\<close>

definition LookupDevice :: "pjrt_runtime \<Rightarrow> int \<Rightarrow> pjrt_device statusor nif" where
  "LookupDevice rt device_id w =
     (rt_LookupDevice rt device_id, invoke (CLookupDevice device_id) w)"

definition BufferFromHostBuffer ::
  "pjrt_runtime \<Rightarrow> byte list \<Rightarrow> shape \<Rightarrow> pjrt_device \<Rightarrow> pjrt_buffer statusor nif" where
  "BufferFromHostBuffer rt data sh device w =
     (rt_BufferFromHostBuffer rt (calls w) data sh device,
      invoke (CBufferFromHostBuffer data sh device) w)"

definition PjRt_BlockHostUntilReady :: "pjrt_runtime \<Rightarrow> pjrt_buffer \<Rightarrow> status nif" where
  "PjRt_BlockHostUntilReady rt pb w =
     (rt_BlockHostUntilReady rt (calls w) pb, invoke (CBlockHostUntilReady pb) w)"

definition ToLiteral :: "pjrt_runtime \<Rightarrow> pjrt_buffer \<Rightarrow> literal statusor nif" where
  "ToLiteral rt pb w = (rt_ToLiteral rt (calls w) pb, invoke (CToLiteral pb) w)"

definition ExecutePortable ::
  "pjrt_runtime \<Rightarrow> pjrt_executable \<Rightarrow> pjrt_buffer list \<Rightarrow> pjrt_device \<Rightarrow> execute_options \<Rightarrow>
   pjrt_buffer list statusor nif" where
  "ExecutePortable rt exe bufs device opts w =
     (rt_ExecutePortable rt (calls w) exe bufs device opts,
      invoke (CExecutePortable exe bufs device opts) w)"

definition Execute ::
  "pjrt_runtime \<Rightarrow> pjrt_executable \<Rightarrow> pjrt_buffer list list \<Rightarrow> execute_options \<Rightarrow>
   pjrt_buffer list list statusor nif" where
  "Execute rt exe inputs opts w =
     (rt_Execute rt (calls w) exe inputs opts, invoke (CExecute exe inputs opts) w)"

definition PjRt_Compile ::
  "pjrt_runtime \<Rightarrow> xla_computation \<Rightarrow> compile_options \<Rightarrow> pjrt_executable statusor nif" where
  "PjRt_Compile rt computation opts w =
     (rt_Compile rt (calls w) computation opts, invoke (CCompile computation opts) w)"

definition ExecutableFingerprint ::
  "pjrt_runtime \<Rightarrow> pjrt_executable \<Rightarrow> string option statusor nif" where
  "ExecutableFingerprint rt exe w =
     (rt_ExecutableFingerprint rt (calls w) exe, invoke (CExecutableFingerprint exe) w)"

definition Device_TransferToInfeed ::
  "pjrt_runtime \<Rightarrow> pjrt_device \<Rightarrow> borrowing_literal \<Rightarrow> status nif" where
  "Device_TransferToInfeed rt device lit w =
     (rt_TransferToInfeed rt (calls w) device lit, invoke (CTransferToInfeed device lit) w)"


text \<open>
  \<^verbatim>\<open>PjRtBuffer::Delete\<close> drops the buffer's device memory; \<^verbatim>\<open>PjRtBuffer::IsDeleted\<close>
  is true if and only if \<^verbatim>\<open>Delete\<close> has been called on the buffer before (this layer
  never calls \<^verbatim>\<open>Release\<close>).
\<close>

definition Delete :: "pjrt_buffer \<Rightarrow> world \<Rightarrow> world" where
  "Delete pb w = invoke (CDelete pb) w"

definition IsDeleted :: "pjrt_buffer \<Rightarrow> world \<Rightarrow> bool" where
  "IsDeleted pb w = (CDelete pb \<in> set (calls w))"

text \<open>
  The destructor of a PjRt buffer, which runs when the \<^verbatim>\<open>std::unique_ptr\<close> that owns
  it goes away: \<^verbatim>\<open>delete\<close> of the \<^verbatim>\<open>ExlaBuffer\<close> holding it, or the end of the scope
  of a vector that still owns it.
\<close>

definition Destroy :: "pjrt_buffer \<Rightarrow> world \<Rightarrow> world" where
  "Destroy pb w = invoke (CDestroy pb) w"

definition delete_ExlaBuffer :: "exla_buffer \<Rightarrow> world \<Rightarrow> world" where
  "delete_ExlaBuffer buf w = Destroy (buffer buf) w"

fun destroy_all :: "pjrt_buffer list \<Rightarrow> world \<Rightarrow> world" where
  "destroy_all [] w = w"
| "destroy_all (pb # pbs) w = destroy_all pbs (Destroy pb w)"

section \<open>ExlaBuffer\<close>

text \<open>
  \<^verbatim>\<open>CopyLiteralToBinary\<close> (lines 15-20). The comparisons are those of \<^verbatim>\<open>int64\<close>, that
  is signed; the binary allocated holds \<open>size\<close> bytes, all of them written by
  \<^verbatim>\<open>memcpy\<close>.
\<close>

definition CopyLiteralToBinary :: "literal \<Rightarrow> int64 \<Rightarrow> byte list" where
  "CopyLiteralToBinary lit sz =
     (let actual_size = size_bytes lit;
          sz' = (if sz <s 0 \<or> actual_size <s sz then actual_size else sz)
      in take (unat sz') (untyped_data lit))"

text \<open>\<^verbatim>\<open>ExlaBuffer::ToBinary\<close> (lines 22-38).\<close>

definition ToBinary :: "pjrt_runtime \<Rightarrow> exla_buffer \<Rightarrow> int64 \<Rightarrow> nif_term statusor nif" where
  "ToBinary rt this sz =
     EFFECT_OR_RETURN (PjRt_BlockHostUntilReady rt (buffer this))
    (ASSIGN_OR_RETURN (ToLiteral rt (buffer this)) (\<lambda>lit.
       let host_shape = MakeShape (element_type (on_device_shape (buffer this)))
                                  (dimensions (on_device_shape (buffer this)))
       in if LayoutsInShapesEqual host_shape (literal_shape lit) then
            return (TBinary (CopyLiteralToBinary lit sz))
          else
            let new_literal = rt_Relayout rt lit host_shape
            in return (TBinary (CopyLiteralToBinary new_literal sz))))"

text \<open>\<^verbatim>\<open>ExlaBuffer::BlockHostUntilReady\<close> (lines 40-42).\<close>

definition BlockHostUntilReady :: "pjrt_runtime \<Rightarrow> exla_buffer \<Rightarrow> status nif" where
  "BlockHostUntilReady rt this = PjRt_BlockHostUntilReady rt (buffer this)"

text \<open>\<^verbatim>\<open>ExlaBuffer::Deallocate\<close> (lines 44-52).\<close>

definition Deallocate :: "exla_buffer \<Rightarrow> status nif" where
  "Deallocate this w =
     (if IsDeleted (buffer this) w then
        (Inl (FailedPrecondition ''Attempt to deallocate already deallocated buffer.''), w)
      else
        (OK, Delete (buffer this) w))"

section \<open>ExlaClient: buffers from host data\<close>

text \<open>
  \<^verbatim>\<open>ExlaClient::BufferFromBinary\<close> (lines 173-183). The host-buffer semantics and the
  null callback are the same in every call and are left out of the log.
\<close>

definition BufferFromBinary ::
  "exla_client \<Rightarrow> byte list \<Rightarrow> shape \<Rightarrow> int \<Rightarrow> bool \<Rightarrow> exla_buffer statusor nif" where
  "BufferFromBinary this binary sh device_id can_be_released_after_run =
     ASSIGN_OR_RETURN (LookupDevice (client this) device_id) (\<lambda>device.
     ASSIGN_OR_RETURN (BufferFromHostBuffer (client this) binary sh device) (\<lambda>pb.
     return \<lparr>buffer = pb, release_after_run = can_be_released_after_run\<rparr>))"

section \<open>Arguments and results of a run\<close>

text \<open>
  \<^verbatim>\<open>UnpackRunArguments\<close> (lines 54-96): the \<^verbatim>\<open>while\<close> loop over the list cells, then
  the function itself.
\<close>

fun UnpackRunArguments_loop ::
  "exla_client \<Rightarrow> nif_term \<Rightarrow> int \<Rightarrow> exla_buffer list \<Rightarrow> exla_buffer list statusor nif" where
  "UnpackRunArguments_loop cl (TCons head tail) device_id arg_buffers w =
     (case enif_get_tuple head of
        Some elems \<Rightarrow>
          (case tuple_elem elems 0 of
             Inl e \<Rightarrow> (Inl e, w)
           | Inr t0 \<Rightarrow>
               (case get_binary t0 of
                  None \<Rightarrow> (Inl (InvalidArgument ''Expected argument to be binary.''), w)
                | Some data \<Rightarrow>
                    (case tuple_elem elems 1 of
                       Inl e \<Rightarrow> (Inl e, w)
                     | Inr t1 \<Rightarrow>
                         (case get_shape t1 of
                            None \<Rightarrow>
                              (Inl (InvalidArgument ''Expected argument to be shape reference.''), w)
                          | Some sh \<Rightarrow>
                              (case BufferFromBinary cl data sh device_id True w of
                                 (Inl e, w') \<Rightarrow> (Inl e, w')
                               | (Inr buf, w') \<Rightarrow>
                                   UnpackRunArguments_loop cl tail device_id
                                     (arg_buffers @ [buf]) w')))))
      | None \<Rightarrow>
          (case get_buffer head of
             Some buf \<Rightarrow> UnpackRunArguments_loop cl tail device_id (arg_buffers @ [buf]) w
           | None \<Rightarrow> (Inl (InvalidArgument ''Expected argument to be buffer reference.''), w)))"
| "UnpackRunArguments_loop cl t device_id arg_buffers w = (Inr arg_buffers, w)"

definition UnpackRunArguments ::
  "nif_term \<Rightarrow> exla_client \<Rightarrow> int \<Rightarrow> exla_buffer list statusor nif" where
  "UnpackRunArguments arguments cl device_id w =
     (case enif_get_list_length arguments of
        None \<Rightarrow> (Inl (InvalidArgument ''Argument is not a list.''), w)
      | Some n \<Rightarrow> UnpackRunArguments_loop cl arguments device_id [] w)"

text \<open>
  \<^verbatim>\<open>UnpackResult\<close> (lines 98-113): the loop over the result buffers, then the function.
  The \<^verbatim>\<open>ExlaBuffer\<close> of an output is built by the one-argument constructor call; its
  flag is the default of the declaration in \<^verbatim>\<open>exla_client.h\<close>, which is not among the
  sources and is taken as \<open>False\<close> (the spec reserves the flag for "transient,
  host-materialized input"). When \<^verbatim>\<open>ToBinary\<close> fails the function returns at once:
  the current \<^verbatim>\<open>ExlaBuffer\<close> is not deleted, and the vector \<^verbatim>\<open>result\<close> goes out of
  scope with the buffers not yet taken from it.
\<close>

fun UnpackResult_loop ::
  "pjrt_runtime \<Rightarrow> pjrt_buffer list \<Rightarrow> bool \<Rightarrow> nif_term list \<Rightarrow> nif_term list statusor nif" where
  "UnpackResult_loop rt [] keep_on_device terms w = (Inr terms, w)"
| "UnpackResult_loop rt (pjrt_buf # rest) keep_on_device terms w =
     (let buf = \<lparr>buffer = pjrt_buf, release_after_run = False\<rparr> in
      if keep_on_device then
        (case make_buffer buf w of
           (t, w') \<Rightarrow> UnpackResult_loop rt rest keep_on_device (terms @ [t]) w')
      else
        (case ToBinary rt buf (- 1) w of
           (Inl e, w') \<Rightarrow> (Inl e, destroy_all rest w')
         | (Inr t, w') \<Rightarrow>
             UnpackResult_loop rt rest keep_on_device (terms @ [t]) (delete_ExlaBuffer buf w')))"

definition UnpackResult :: "pjrt_runtime \<Rightarrow> pjrt_buffer list \<Rightarrow> bool \<Rightarrow> nif_term statusor nif" where
  "UnpackResult rt result keep_on_device =
     ASSIGN_OR_RETURN (UnpackResult_loop rt result keep_on_device []) (\<lambda>terms.
     return (nif_ok (TTuple [enif_make_list_from_array terms, TInt 0])))"

section \<open>ExlaExecutable\<close>

text \<open>
  The loop of \<^verbatim>\<open>ExlaExecutable::Run\<close> over the input buffers (lines 142-154).
\<close>

fun Run_loop ::
  "pjrt_runtime \<Rightarrow> exla_buffer list \<Rightarrow> pjrt_buffer list \<Rightarrow> nif_term list \<Rightarrow>
   (pjrt_buffer list \<times> nif_term list) statusor nif" where
  "Run_loop rt [] pjrt_buffers terms w = (Inr (pjrt_buffers, terms), w)"
| "Run_loop rt (buf # rest) pjrt_buffers terms w =
     (if release_after_run buf then
        (case BlockHostUntilReady rt buf w of
           (Inl e, w') \<Rightarrow> (Inl e, w')
         | (Inr u, w') \<Rightarrow>
             (case make_buffer buf w' of
                (t, w'') \<Rightarrow> Run_loop rt rest (pjrt_buffers @ [buffer buf]) (terms @ [t]) w''))
      else Run_loop rt rest (pjrt_buffers @ [buffer buf]) terms w)"

text \<open>
  \<^verbatim>\<open>ExlaExecutable::Run\<close> (lines 121-169). \<^verbatim>\<open>result.at(0)\<close> throws
  \<^verbatim>\<open>std::out_of_range\<close> on an empty vector. In the branch for a negative device id
  the vector \<^verbatim>\<open>result\<close> goes out of scope after \<^verbatim>\<open>UnpackResult\<close>, with the buffers
  of every replica but the first still in it.
\<close>

definition Run :: "exla_executable \<Rightarrow> nif_term \<Rightarrow> bool \<Rightarrow> int \<Rightarrow> nif_term statusor nif" where
  "Run this arguments keep_on_device device_id =
     (let options = \<lparr>untuple_result = True, strict_shape_checking = False\<rparr> in
      ASSIGN_OR_RETURN
        (if 0 \<le> device_id then UnpackRunArguments arguments (exe_client this) device_id
         else UnpackRunArguments arguments (exe_client this) 0) (\<lambda>input_buffers.
      ASSIGN_OR_RETURN (Run_loop (client (exe_client this)) input_buffers [] []) (\<lambda>(pjrt_buffers, terms).
        if 0 \<le> device_id then
          ASSIGN_OR_RETURN (LookupDevice (client (exe_client this)) device_id) (\<lambda>device.
          ASSIGN_OR_RETURN
            (ExecutePortable (client (exe_client this)) (executable this) pjrt_buffers device options)
            (\<lambda>result.
          ASSIGN_OR_RETURN (UnpackResult (client (exe_client this)) result keep_on_device) (\<lambda>ret.
          return ret)))
        else
          (let inputs = [pjrt_buffers] in
           ASSIGN_OR_RETURN (Execute (client (exe_client this)) (executable this) inputs options)
             (\<lambda>result.
               case result of
                 [] \<Rightarrow> fail (Abort ''std::out_of_range'')
               | first # others \<Rightarrow>
                   (\<lambda>w. case UnpackResult (client (exe_client this)) first keep_on_device w of
                          (r, w') \<Rightarrow> (r, destroy_all (concat others) w')))))))"

section \<open>ExlaClient: compilation and streaming transfers\<close>

text \<open>
  \<^verbatim>\<open>ExlaClient::Compile\<close> (lines 185-209). The loop over the argument shapes only
  appends to \<^verbatim>\<open>layouts\<close> and is a \<open>map\<close>. When the fingerprint query fails, the
  compiled executable goes out of scope; the log does not record the end of an
  executable.
\<close>

definition Compile ::
  "exla_client \<Rightarrow> xla_computation \<Rightarrow> shape list \<Rightarrow> executable_build_options \<Rightarrow> bool \<Rightarrow>
   exla_executable statusor nif" where
  "Compile this computation argument_shapes build_opts portable =
     (let layouts = map (\<lambda>sh. ClearLayout (MakeShape (element_type sh) (dimensions sh)))
                        argument_shapes;
          compile_opts = \<lparr>argument_layouts = layouts,
                          parameter_is_tupled_arguments = False,
                          executable_build_options = build_opts,
                          compile_portable_executable = portable\<rparr>
      in ASSIGN_OR_RETURN (PjRt_Compile (client this) computation compile_opts) (\<lambda>exe.
         ASSIGN_OR_RETURN (ExecutableFingerprint (client this) exe) (\<lambda>fp.
         return \<lparr>executable = exe, fingerprint = fp, exe_client = this\<rparr>)))"

text \<open>
  \<^verbatim>\<open>ExlaClient::TransferToInfeed\<close> (lines 211-264): the loop that collects the
  pointers of a tuple's elements, then the function. The checks the constructors of
  \<^verbatim>\<open>xla::BorrowingLiteral\<close> run on their arguments are XLA's and are not modelled.
\<close>

fun TransferToInfeed_loop :: "nif_term \<Rightarrow> byte list list \<Rightarrow> byte list list statusor" where
  "TransferToInfeed_loop (TCons head tail) buf_ptrs =
     (case get_binary head of
        None \<Rightarrow> Inl (InvalidArgument ''infeed operation expects a list of binaries'')
      | Some tmp_bin \<Rightarrow> TransferToInfeed_loop tail (buf_ptrs @ [tmp_bin]))"
| "TransferToInfeed_loop t buf_ptrs = Inr buf_ptrs"

definition TransferToInfeed :: "exla_client \<Rightarrow> nif_term \<Rightarrow> shape \<Rightarrow> int \<Rightarrow> status nif" where
  "TransferToInfeed this data sh device_id =
     (if IsTuple sh then
        (if IsNestedTuple sh then
           fail (InvalidArgument ''nested tuples are not supported in infeed operation'')
         else
           (case TransferToInfeed_loop data [] of
              Inl e \<Rightarrow> fail e
            | Inr buf_ptrs \<Rightarrow>
                (let lit = BorrowingLiteral buf_ptrs sh in
                 ASSIGN_OR_RETURN (LookupDevice (client this) device_id) (\<lambda>device.
                 Device_TransferToInfeed (client this) device lit))))
      else
        (case data of
           TCons head tail \<Rightarrow>
             (case get_binary head of
                None \<Rightarrow> fail (InvalidArgument ''infeed operation expects a list of binaries'')
              | Some binary \<Rightarrow>
                  (let lit = BorrowingLiteral [binary] sh in
                   ASSIGN_OR_RETURN (LookupDevice (client this) device_id) (\<lambda>device.
                   Device_TransferToInfeed (client this) device lit)))
         | _ \<Rightarrow> fail (InvalidArgument ''infeed operation expects a list of binaries'')))"


section \<open>A sample runtime\<close>

text \<open>
  A small concrete runtime on which the theorems below are instantiated: one device
  (id 0), every buffer holds the four bytes 1, 2, 3, 4 and is always ready, every
  execution produces one fresh buffer per replica, and no transfer fails.
\<close>

definition sample_runtime :: pjrt_runtime where
  "sample_runtime =
     \<lparr>rt_LookupDevice =
        (\<lambda>device_id. if device_id = 0 then Inr (PjRtDevice 0)
                      else Inl (Status NOT_FOUND ''No matching device found'')),
      rt_BufferFromHostBuffer = (\<lambda>h data sh device. Inr (PjRtBuffer (length h) sh)),
      rt_BlockHostUntilReady = (\<lambda>h pb. OK),
      rt_ToLiteral = (\<lambda>h pb. Inr (Literal (on_device_shape pb) [1, 2, 3, 4])),
      rt_Relayout = (\<lambda>lit sh. Literal sh (untyped_data lit)),
      rt_ExecutePortable =
        (\<lambda>h exe bufs device opts. Inr [PjRtBuffer (length h) (MakeShape F32 [1])]),
      rt_Execute =
        (\<lambda>h exe inputs opts. Inr [[PjRtBuffer (length h) (MakeShape F32 [1])]]),
      rt_Compile = (\<lambda>h computation opts. Inr (PjRtExecutable (length h))),
      rt_ExecutableFingerprint = (\<lambda>h exe. Inr (Some ''fingerprint'')),
      rt_TransferToInfeed = (\<lambda>h device lit. OK),
      rt_TransferFromOutfeed = (\<lambda>h device sh. (OK, Literal sh [1, 2, 3, 4]))\<rparr>"

definition sample_client :: exla_client where
  "sample_client = \<lparr>client = sample_runtime\<rparr>"

definition empty_world :: world where
  "empty_world = \<lparr>calls = [], resources = []\<rparr>"

section \<open>Theorems\<close>

subsection \<open>Deallocation\<close>

text \<open>
  C1. The first \<open>Deallocate\<close> of a buffer that has not been deallocated returns OK and
  releases the device memory (one \<open>Delete\<close> call on the PjRt buffer, after which the
  buffer counts as deleted). Every later \<open>Deallocate\<close> of the same buffer, whatever
  the runtime has been asked in between, returns the failed-precondition status and
  changes nothing.
\<close>

theorem Deallocate_first_succeeds_later_fail:
  assumes "\<not> IsDeleted (buffer b) w"
  shows "\<exists>w'. Deallocate b w = (OK, w') \<and>
              calls w' = calls w @ [CDelete (buffer b)] \<and>
              IsDeleted (buffer b) w' \<and>
              (\<forall>later. Deallocate b (w'\<lparr>calls := calls w' @ later\<rparr>) =
                 (Inl (Status FAILED_PRECONDITION
                         ''Attempt to deallocate already deallocated buffer.''),
                  w'\<lparr>calls := calls w' @ later\<rparr>))"
  using assms
  by (simp add: Deallocate_def Delete_def IsDeleted_def invoke_def FailedPrecondition_def)

theorem Deallocate_first_succeeds_later_fail_witness:
  "\<exists>w'. Deallocate \<lparr>buffer = PjRtBuffer 0 (MakeShape F32 [4]), release_after_run = False\<rparr>
          \<lparr>calls = [], resources = []\<rparr> = (OK, w') \<and>
        Deallocate \<lparr>buffer = PjRtBuffer 0 (MakeShape F32 [4]), release_after_run = False\<rparr> w' =
          (Inl (Status FAILED_PRECONDITION ''Attempt to deallocate already deallocated buffer.''), w')"
proof -
  let ?b = "\<lparr>buffer = PjRtBuffer 0 (MakeShape F32 [4]), release_after_run = False\<rparr>"
  let ?w = "\<lparr>calls = [], resources = []\<rparr>"
  have fresh: "\<not> IsDeleted (buffer ?b) ?w"
    by (simp add: IsDeleted_def)
  from Deallocate_first_succeeds_later_fail [OF fresh]
  obtain w' where first: "Deallocate ?b ?w = (OK, w')"
    and later: "\<forall>later. Deallocate ?b (w'\<lparr>calls := calls w' @ later\<rparr>) =
                 (Inl (Status FAILED_PRECONDITION
                         ''Attempt to deallocate already deallocated buffer.''),
                  w'\<lparr>calls := calls w' @ later\<rparr>)"
    by blast
  from later have "Deallocate ?b (w'\<lparr>calls := calls w' @ []\<rparr>) =
      (Inl (Status FAILED_PRECONDITION ''Attempt to deallocate already deallocated buffer.''),
       w'\<lparr>calls := calls w' @ []\<rparr>)"
    by blast
  then have "Deallocate ?b w' =
      (Inl (Status FAILED_PRECONDITION ''Attempt to deallocate already deallocated buffer.''), w')"
    by simp
  with first show ?thesis by blast
qed

subsection \<open>Readback\<close>

lemma sint_size_of_nat:
  assumes "n < 2 ^ 63"
  shows "sint (word_of_nat n :: int64) = int n"
proof -
  have "sint (word_of_nat n :: int64) = signed_take_bit 63 (int n)"
    by (simp add: signed_of_nat)
  also have "\<dots> = int n"
    using assms by (intro signed_take_bit_int_eq_self) auto
  finally show ?thesis by simp
qed

lemma unat_of_nonneg_sint:
  fixes x :: int64
  assumes "0 \<le> sint x"
  shows "unat x = nat (sint x)"
proof -
  have "sint x = uint x - 2 ^ 64 * of_bool (bit (uint x) 63)"
    using signed_take_bit_eq_take_bit_minus [of 63 "uint x"] 
    by (simp add: sint_uint take_bit_int_eq_self uint_lt2p[of x, simplified] )
  moreover have "uint x < 2 ^ 64"
    using uint_lt2p [of x] by simp
  ultimately have "sint x = uint x"
    using assms by (cases "bit (uint x) 63") auto
  then show ?thesis
    by simp
qed

lemma CopyLiteralToBinary_eq:
  assumes "length (untyped_data lit) < 2 ^ 63"
  shows "CopyLiteralToBinary lit sz =
           (if sint sz < 0 \<or> int (length (untyped_data lit)) < sint sz then untyped_data lit
            else take (nat (sint sz)) (untyped_data lit))"
proof -
  let ?n = "length (untyped_data lit)"
  have actual: "sint (size_bytes lit) = int ?n"
    using assms by (simp add: size_bytes_def sint_size_of_nat)
  then have all: "unat (size_bytes lit) = ?n"
    using unat_of_nonneg_sint [of "size_bytes lit"] by simp
  show ?thesis
  proof (cases "sint sz < 0 \<or> int ?n < sint sz")
    case True
    then show ?thesis
      using actual all by (auto simp: CopyLiteralToBinary_def Let_def word_sless_alt)
  next
    case False
    then have "0 \<le> sint sz" by simp
    then have "unat sz = nat (sint sz)"
      by (rule unat_of_nonneg_sint)
    with False show ?thesis
      using actual by (auto simp: CopyLiteralToBinary_def Let_def word_sless_alt)
  qed
qed

text \<open>
  C2. For a buffer that is ready and whose readback succeeds, let \<open>full\<close> be the bytes
  of the literal that \<open>ToBinary\<close> serialises (the literal read back, relaid to the host
  shape when its layout differs), of a length that fits \<^verbatim>\<open>int64\<close>. Then
  \<open>ToBinary max_size\<close> returns all of \<open>full\<close> when \<open>max_size\<close> is negative or
  greater than the length of \<open>full\<close>, and exactly the first \<open>max_size\<close> bytes of
  \<open>full\<close> when \<open>0 \<le> max_size \<le> length full\<close>.
\<close>

theorem ToBinary_full_or_prefix:
  assumes ready: "rt_BlockHostUntilReady rt (calls w) (buffer b) = OK"
    and readback: "rt_ToLiteral rt (calls w @ [CBlockHostUntilReady (buffer b)]) (buffer b) = Inr lit"
    and full: "full = untyped_data
        (if LayoutsInShapesEqual
              (MakeShape (element_type (on_device_shape (buffer b)))
                         (dimensions (on_device_shape (buffer b))))
              (literal_shape lit)
         then lit
         else rt_Relayout rt lit
                (MakeShape (element_type (on_device_shape (buffer b)))
                           (dimensions (on_device_shape (buffer b)))))"
    and fits: "length full < 2 ^ 63"
  shows "\<exists>bytes w'. ToBinary rt b max_size w = (Inr (TBinary bytes), w') \<and>
           (sint max_size < 0 \<or> int (length full) < sint max_size \<longrightarrow> bytes = full) \<and>
           (0 \<le> sint max_size \<and> sint max_size \<le> int (length full) \<longrightarrow>
              bytes = take (nat (sint max_size)) full \<and> int (length bytes) = sint max_size)"
proof -
  let ?host = "MakeShape (element_type (on_device_shape (buffer b)))
                         (dimensions (on_device_shape (buffer b)))"
  let ?src = "if LayoutsInShapesEqual ?host (literal_shape lit) then lit
              else rt_Relayout rt lit ?host"
  have run: "ToBinary rt b max_size w =
      (Inr (TBinary (CopyLiteralToBinary ?src max_size)),
       invoke (CToLiteral (buffer b)) (invoke (CBlockHostUntilReady (buffer b)) w))"
    using ready readback
    by (simp add: ToBinary_def EFFECT_OR_RETURN_def ASSIGN_OR_RETURN_def
        PjRt_BlockHostUntilReady_def ToLiteral_def return_def invoke_def Let_def)
  have len: "length (untyped_data ?src) < 2 ^ 63"
    using fits full by simp
  have copy: "CopyLiteralToBinary ?src max_size =
      (if sint max_size < 0 \<or> int (length full) < sint max_size then full
       else take (nat (sint max_size)) full)"
    using CopyLiteralToBinary_eq [OF len] full by simp
  show ?thesis
    unfolding run copy by (intro exI conjI) (rule refl, auto)
qed


theorem ToBinary_full_or_prefix_witness:
  "\<exists>w'. ToBinary sample_runtime
          \<lparr>buffer = PjRtBuffer 0 (MakeShape F32 [1]), release_after_run = False\<rparr> 2 empty_world =
          (Inr (TBinary [1, 2]), w')"
  using ToBinary_full_or_prefix [of sample_runtime empty_world
      "\<lparr>buffer = PjRtBuffer 0 (MakeShape F32 [1]), release_after_run = False\<rparr>"
      "Literal (MakeShape F32 [1]) [1, 2, 3, 4]" "[1, 2, 3, 4]" 2]
  by (simp add: sample_runtime_def empty_world_def MakeShape_def)

subsection \<open>Infeed\<close>

text \<open>
  C7. When the shape is a tuple with a tuple among its elements, \<open>TransferToInfeed\<close>
  returns the invalid-argument status whatever the data and the device id are, and the
  world is unchanged: no device lookup and no transfer has been attempted.
\<close>

theorem TransferToInfeed_nested_tuple_rejected:
  assumes "IsNestedTuple sh"
  shows "TransferToInfeed cl data sh device_id w =
           (Inl (Status INVALID_ARGUMENT ''nested tuples are not supported in infeed operation''), w)"
  using assms
  by (simp add: TransferToInfeed_def IsNestedTuple_def fail_def InvalidArgument_def)

theorem TransferToInfeed_nested_tuple_rejected_witness:
  "TransferToInfeed sample_client (TCons (TBinary [1]) TNil)
     (Shape TUPLE [] None [Shape TUPLE [] None [], Shape F32 [2] None []]) 7 empty_world =
   (Inl (Status INVALID_ARGUMENT ''nested tuples are not supported in infeed operation''),
    empty_world)"
proof -
  have "IsNestedTuple (Shape TUPLE [] None [Shape TUPLE [] None [], Shape F32 [2] None []])"
    by (simp add: IsNestedTuple_def IsTuple_def)
  then show ?thesis
    by (rule TransferToInfeed_nested_tuple_rejected)
qed

text \<open>
  C8. For a shape that is not a tuple and a list whose first element is a binary, the
  only value handed to the device is a literal over that first binary; the outcome is
  the same whatever follows the first element of the list.
\<close>

theorem TransferToInfeed_first_chunk_only:
  assumes "\<not> IsTuple sh"
  shows "TransferToInfeed cl (TCons (TBinary chunk) rest) sh device_id w =
           (case rt_LookupDevice (client cl) device_id of
              Inl e \<Rightarrow> (Inl e, w\<lparr>calls := calls w @ [CLookupDevice device_id]\<rparr>)
            | Inr device \<Rightarrow>
                (rt_TransferToInfeed (client cl) (calls w @ [CLookupDevice device_id]) device
                   (BorrowingLiteral [chunk] sh),
                 w\<lparr>calls := calls w @ [CLookupDevice device_id,
                      CTransferToInfeed device (BorrowingLiteral [chunk] sh)]\<rparr>)) \<and>
         TransferToInfeed cl (TCons (TBinary chunk) rest) sh device_id w =
           TransferToInfeed cl (TCons (TBinary chunk) TNil) sh device_id w"
  using assms
  by (simp add: TransferToInfeed_def get_binary_def ASSIGN_OR_RETURN_def LookupDevice_def
      Device_TransferToInfeed_def invoke_def Let_def split: sum.splits)

theorem TransferToInfeed_first_chunk_only_witness:
  "TransferToInfeed sample_client (TCons (TBinary [1, 2]) (TCons (TBinary [3]) (TAtom ''x'')))
     (MakeShape U8 [2]) 0 empty_world =
   (OK, \<lparr>calls = [CLookupDevice 0,
                   CTransferToInfeed (PjRtDevice 0) (BorrowingLiteral [[1, 2]] (MakeShape U8 [2]))],
         resources = []\<rparr>)"
proof -
  have "\<not> IsTuple (MakeShape U8 [2])"
    by (simp add: IsTuple_def MakeShape_def)
  from TransferToInfeed_first_chunk_only [OF this, of sample_client "[1, 2]"
      "TCons (TBinary [3]) (TAtom ''x'')" 0 empty_world]
  show ?thesis
    by (simp add: sample_client_def sample_runtime_def empty_world_def)
qed


subsection \<open>Compilation\<close>

text \<open>
  C6. The first runtime call of \<open>Compile\<close> is the compilation, and its options hold,
  for each argument shape, a shape with the same element type and dimensions, no layout
  and no tuple elements; arguments are not tupled; build options and portability flag
  are the caller's. On success the fingerprint query follows, and the executable
  returned carries what the runtime answered to it.
\<close>

theorem Compile_strips_layouts:
  assumes "Compile cl computation shapes build_opts portable w = (r, w')"
  shows "\<exists>copts rest.
           calls w' = calls w @ CCompile computation copts # rest \<and>
           argument_layouts copts =
             map (\<lambda>sh. Shape (element_type sh) (dimensions sh) None []) shapes \<and>
           parameter_is_tupled_arguments copts = False \<and>
           executable_build_options copts = build_opts \<and>
           compile_portable_executable copts = portable \<and>
           (\<forall>exe. r = Inr exe \<longrightarrow>
              rest = [CExecutableFingerprint (executable exe)] \<and>
              rt_Compile (client cl) (calls w) computation copts = Inr (executable exe) \<and>
              rt_ExecutableFingerprint (client cl) (calls w @ [CCompile computation copts])
                (executable exe) = Inr (fingerprint exe) \<and>
              exe_client exe = cl)"
  using assms
  by (auto simp: Compile_def ASSIGN_OR_RETURN_def PjRt_Compile_def ExecutableFingerprint_def
      invoke_def Let_def return_def MakeShape_def comp_def split: sum.splits)

theorem Compile_strips_layouts_witness:
  "\<exists>copts rest.
     [CCompile (XlaComputation 0)
        \<lparr>argument_layouts = [Shape F32 [2, 3] None []],
           parameter_is_tupled_arguments = False,
           executable_build_options = ExecutableBuildOptions 0,
           compile_portable_executable = True\<rparr>,
      CExecutableFingerprint (PjRtExecutable 0)] = CCompile (XlaComputation 0) copts # rest \<and>
     argument_layouts copts = [Shape F32 [2, 3] None []] \<and>
     parameter_is_tupled_arguments copts = False \<and>
     rest = [CExecutableFingerprint (PjRtExecutable 0)] \<and>
     rt_ExecutableFingerprint sample_runtime [CCompile (XlaComputation 0) copts]
       (PjRtExecutable 0) = Inr (Some ''fingerprint'')"
proof -
  have run: "Compile sample_client (XlaComputation 0) [Shape F32 [2, 3] (Some [0, 1]) []]
               (ExecutableBuildOptions 0) True empty_world =
             (Inr \<lparr>executable = PjRtExecutable 0, fingerprint = Some ''fingerprint'',
                    exe_client = sample_client\<rparr>,
              \<lparr>calls = [CCompile (XlaComputation 0)
                          \<lparr>argument_layouts = [Shape F32 [2, 3] None []],
                             parameter_is_tupled_arguments = False,
                             executable_build_options = ExecutableBuildOptions 0,
                             compile_portable_executable = True\<rparr>,
                        CExecutableFingerprint (PjRtExecutable 0)],
                 resources = []\<rparr>)"
    by (simp add: Compile_def ASSIGN_OR_RETURN_def PjRt_Compile_def ExecutableFingerprint_def
        invoke_def Let_def return_def MakeShape_def sample_client_def sample_runtime_def
        empty_world_def)
  from Compile_strips_layouts [OF run] show ?thesis
    by (simp add: empty_world_def sample_client_def)
qed

subsection \<open>The phases of a run\<close>

lemma calls_invoke: "calls (invoke c w) = calls w @ [c]"
  by (simp add: invoke_def)

lemma resources_invoke: "resources (invoke c w) = resources w"
  by (simp add: invoke_def)

lemma BufferFromBinary_eq:
  "BufferFromBinary cl data sh device_id flag w =
     (case rt_LookupDevice (client cl) device_id of
        Inl e \<Rightarrow> (Inl e, invoke (CLookupDevice device_id) w)
      | Inr device \<Rightarrow>
          (case rt_BufferFromHostBuffer (client cl) (calls w @ [CLookupDevice device_id])
                  data sh device of
             Inl e \<Rightarrow>
               (Inl e, invoke (CBufferFromHostBuffer data sh device)
                         (invoke (CLookupDevice device_id) w))
           | Inr pb \<Rightarrow>
               (Inr \<lparr>buffer = pb, release_after_run = flag\<rparr>,
                invoke (CBufferFromHostBuffer data sh device)
                  (invoke (CLookupDevice device_id) w))))"
  by (simp add: BufferFromBinary_def ASSIGN_OR_RETURN_def LookupDevice_def
      BufferFromHostBuffer_def return_def calls_invoke split: sum.splits)

lemma UnpackRunArguments_loop_log:
  assumes "UnpackRunArguments_loop cl args device_id acc w = (r, w')"
  shows "resources w' = resources w \<and>
         (\<exists>cs. calls w' = calls w @ cs \<and>
            (\<forall>c \<in> set cs. c = CLookupDevice device_id \<or>
               (\<exists>data sh device. c = CBufferFromHostBuffer data sh device \<and>
                  rt_LookupDevice (client cl) device_id = Inr device)))"
  using assms
proof (induction cl args device_id acc w rule: UnpackRunArguments_loop.induct)
  case (1 cl head tail device_id arg_buffers w)
  show ?case
  proof (cases "enif_get_tuple head")
    case None
    then show ?thesis
      using 1 by (auto split: option.splits)
  next
    case (Some elems)
    show ?thesis
    proof (cases "\<exists>data sh t0 t1. tuple_elem elems 0 = Inr t0 \<and> get_binary t0 = Some data \<and>
                     tuple_elem elems 1 = Inr t1 \<and> get_shape t1 = Some sh")
      case False
      then show ?thesis
        using "1.prems" Some by (auto split: sum.splits option.splits)
    next
      case True
      then obtain data sh t0 t1 where
        t: "tuple_elem elems 0 = Inr t0" "get_binary t0 = Some data"
           "tuple_elem elems 1 = Inr t1" "get_shape t1 = Some sh"
        by blast
      show ?thesis
      proof (cases "BufferFromBinary cl data sh device_id True w")
        case (Pair res w1)
        show ?thesis
        proof (cases res)
          case (Inl e)
          then show ?thesis
            using "1.prems" Some t Pair
            by (auto simp: BufferFromBinary_eq calls_invoke resources_invoke split: sum.splits)
        next
          case (Inr buf)
          have step: "UnpackRunArguments_loop cl tail device_id (arg_buffers @ [buf]) w1 = (r, w')"
            using "1.prems" Some t Pair Inr by simp
          
          
          from "1.IH"(2) [OF Some t(1) t(2) t(3) t(4) _ _ step] Pair Inr
          have ih: "resources w' = resources w1 \<and>
             (\<exists>cs. calls w' = calls w1 @ cs \<and>
                (\<forall>c \<in> set cs. c = CLookupDevice device_id \<or>
                   (\<exists>data sh device. c = CBufferFromHostBuffer data sh device \<and>
                      rt_LookupDevice (client cl) device_id = Inr device)))"
            by simp
          from Pair Inr obtain device where
            dev: "rt_LookupDevice (client cl) device_id = Inr device"
            and w1: "w1 = invoke (CBufferFromHostBuffer data sh device)
                            (invoke (CLookupDevice device_id) w)"
            by (auto simp: BufferFromBinary_eq split: sum.splits)
          from ih obtain cs where cs: "calls w' = calls w1 @ cs"
            "\<forall>c \<in> set cs. c = CLookupDevice device_id \<or>
                   (\<exists>data sh device. c = CBufferFromHostBuffer data sh device \<and>
                      rt_LookupDevice (client cl) device_id = Inr device)"
            by blast
          have "calls w' = calls w @ ([CLookupDevice device_id,
                   CBufferFromHostBuffer data sh device] @ cs)"
            using cs(1) w1 by (simp add: calls_invoke)
          moreover have "\<forall>c \<in> set ([CLookupDevice device_id,
                   CBufferFromHostBuffer data sh device] @ cs). c = CLookupDevice device_id \<or>
                   (\<exists>data sh device. c = CBufferFromHostBuffer data sh device \<and>
                      rt_LookupDevice (client cl) device_id = Inr device)"
            using cs(2) dev by auto
          ultimately show ?thesis
            using ih w1 by (metis resources_invoke)
        qed
      qed
    qed
  qed
qed auto


lemma proper_list_is_array:
  assumes "enif_get_list_length t = Some n"
  shows "\<exists>xs. t = enif_make_list_from_array xs \<and> length xs = n"
  using assms
proof (induction t arbitrary: n rule: enif_get_list_length.induct)
  case 1
  then show ?case by (simp add: enif_make_list_from_array_def)
next
  case (2 h t)
  then obtain m where m: "enif_get_list_length t = Some m" "n = Suc m"
    by auto
  from 2(1) [OF m(1)] obtain xs where "t = enif_make_list_from_array xs" "length xs = m"
    by blast
  then have "TCons h t = enif_make_list_from_array (h # xs) \<and> length (h # xs) = n"
    using m(2) by (simp add: enif_make_list_from_array_def)
  then show ?case by blast
qed simp_all

lemma array_is_proper_list:
  "enif_get_list_length (enif_make_list_from_array xs) = Some (length xs)"
  by (induction xs) (simp_all add: enif_make_list_from_array_def)

lemma enif_make_list_Cons:
  "enif_make_list_from_array (x # xs) = TCons x (enif_make_list_from_array xs)"
  by (simp add: enif_make_list_from_array_def)

lemma enif_make_list_Nil: "enif_make_list_from_array [] = TNil"
  by (simp add: enif_make_list_from_array_def)

lemma loop_handle:
  "UnpackRunArguments_loop cl (TCons (TBufferResource b) tail) device_id acc w =
     UnpackRunArguments_loop cl tail device_id (acc @ [b]) w"
  by (simp add: enif_get_tuple_def get_buffer_def)

lemma loop_host_bytes:
  "UnpackRunArguments_loop cl (TCons (TTuple (TBinary data # TShapeResource sh # extra)) tail)
       device_id acc w =
     (case BufferFromBinary cl data sh device_id True w of
        (Inl e, w') \<Rightarrow> (Inl e, w')
      | (Inr buf, w') \<Rightarrow> UnpackRunArguments_loop cl tail device_id (acc @ [buf]) w')"
  by (simp add: enif_get_tuple_def tuple_elem_def get_binary_def get_shape_def)

lemma loop_malformed:
  assumes "\<And>b. head \<noteq> TBufferResource b"
    and "\<And>data sh extra. head \<noteq> TTuple (TBinary data # TShapeResource sh # extra)"
  shows "\<exists>e. UnpackRunArguments_loop cl (TCons head tail) device_id acc w = (Inl e, w)"
proof (cases head)
  case (TTuple elems)
  show ?thesis
  proof (cases elems)
    case Nil
    then show ?thesis
      using TTuple by (simp add: enif_get_tuple_def tuple_elem_def)
  next
    case (Cons t0 ts)
    show ?thesis
    proof (cases "get_binary t0")
      case None
      then show ?thesis
        using TTuple Cons by (simp add: enif_get_tuple_def tuple_elem_def)
    next
      case (Some data)
      then have t0: "t0 = TBinary data"
        by (simp add: get_binary_def split: nif_term.splits)
      show ?thesis
      proof (cases ts)
        case Nil
        then show ?thesis
          using TTuple Cons Some by (simp add: enif_get_tuple_def tuple_elem_def)
      next
        case (Cons t1 extra)
        with assms(2) TTuple \<open>elems = t0 # ts\<close> t0 have "get_shape t1 = None"
          by (auto simp: get_shape_def split: nif_term.splits)
        then show ?thesis
          using TTuple \<open>elems = t0 # ts\<close> Cons Some
          by (simp add: enif_get_tuple_def tuple_elem_def)
      qed
    qed
  qed
qed (use assms in \<open>simp_all add: enif_get_tuple_def get_buffer_def\<close>)


lemma UnpackRunArguments_loop_success:
  assumes "UnpackRunArguments_loop cl (enif_make_list_from_array args) device_id acc w =
             (Inr bufs, w')"
  shows "\<exists>new. bufs = acc @ new \<and>
           list_all2 (\<lambda>arg buf. arg = TBufferResource buf \<or>
              (\<exists>data sh extra device p t.
                 arg = TTuple (TBinary data # TShapeResource sh # extra) \<and>
                 rt_LookupDevice (client cl) device_id = Inr device \<and>
                 rt_BufferFromHostBuffer (client cl) (calls w @ p @ [CLookupDevice device_id])
                   data sh device = Inr (buffer buf) \<and>
                 release_after_run buf \<and>
                 calls w' = calls w @ p @
                   [CLookupDevice device_id, CBufferFromHostBuffer data sh device] @ t))
             args new"
  using assms
proof (induction args arbitrary: acc w)
  case Nil
  then show ?case
    by (simp add: enif_make_list_Nil)
next
  case (Cons head args)
  let ?R = "\<lambda>w arg buf. arg = TBufferResource buf \<or>
              (\<exists>data sh extra device p t.
                 arg = TTuple (TBinary data # TShapeResource sh # extra) \<and>
                 rt_LookupDevice (client cl) device_id = Inr device \<and>
                 rt_BufferFromHostBuffer (client cl) (calls w @ p @ [CLookupDevice device_id])
                   data sh device = Inr (buffer buf) \<and>
                 release_after_run buf \<and>
                 calls w' = calls w @ p @
                   [CLookupDevice device_id, CBufferFromHostBuffer data sh device] @ t)"
  consider (handle) b where "head = TBufferResource b"
    | (bytes) data sh extra where "head = TTuple (TBinary data # TShapeResource sh # extra)"
    | (malformed) "\<And>b. head \<noteq> TBufferResource b"
        "\<And>data sh extra. head \<noteq> TTuple (TBinary data # TShapeResource sh # extra)"
    by blast
  then show ?case
  proof cases
    case handle
    with Cons.prems have
      "UnpackRunArguments_loop cl (enif_make_list_from_array args) device_id (acc @ [b]) w =
         (Inr bufs, w')"
      by (simp add: enif_make_list_Cons loop_handle del: UnpackRunArguments_loop.simps)
    from Cons.IH [OF this] obtain new where
      new: "bufs = (acc @ [b]) @ new" "list_all2 (?R w) args new"
      by blast
    have "bufs = acc @ (b # new)" "list_all2 (?R w) (head # args) (b # new)"
      using new handle by simp_all
    then show ?thesis by blast
  next
    case bytes
    from Cons.prems bytes obtain buf w1 where
      made: "BufferFromBinary cl data sh device_id True w = (Inr buf, w1)"
      and rest: "UnpackRunArguments_loop cl (enif_make_list_from_array args) device_id
                   (acc @ [buf]) w1 = (Inr bufs, w')"
      by (auto simp: enif_make_list_Cons loop_host_bytes simp del: UnpackRunArguments_loop.simps
          split: prod.splits sum.splits)
    from made obtain device where
      dev: "rt_LookupDevice (client cl) device_id = Inr device"
      and pb: "rt_BufferFromHostBuffer (client cl) (calls w @ [CLookupDevice device_id])
                 data sh device = Inr (buffer buf)"
      and flag: "release_after_run buf"
      and w1: "calls w1 = calls w @ [CLookupDevice device_id,
                  CBufferFromHostBuffer data sh device]"
      by (auto simp: BufferFromBinary_eq calls_invoke split: sum.splits)
    from Cons.IH [OF rest] obtain new where
      new: "bufs = (acc @ [buf]) @ new" "list_all2 (?R w1) args new"
      by blast
    from UnpackRunArguments_loop_log [OF rest] obtain cs where
      cs: "calls w' = calls w1 @ cs"
      by blast
    have head: "?R w head buf"
    proof -
      have "calls w' = calls w @ [] @
              [CLookupDevice device_id, CBufferFromHostBuffer data sh device] @ cs"
        "rt_BufferFromHostBuffer (client cl) (calls w @ [] @ [CLookupDevice device_id])
                 data sh device = Inr (buffer buf)"
        using cs w1 pb by simp_all
      with bytes dev flag show ?thesis
        by blast
    qed
    have mono: "?R w arg b" if "?R w1 arg b" for arg b
      using that
    proof
      assume "arg = TBufferResource b"
      then show ?thesis by simp
    next
      assume "\<exists>data sh extra device p t.
                 arg = TTuple (TBinary data # TShapeResource sh # extra) \<and>
                 rt_LookupDevice (client cl) device_id = Inr device \<and>
                 rt_BufferFromHostBuffer (client cl) (calls w1 @ p @ [CLookupDevice device_id])
                   data sh device = Inr (buffer b) \<and>
                 release_after_run b \<and>
                 calls w' = calls w1 @ p @
                   [CLookupDevice device_id, CBufferFromHostBuffer data sh device] @ t"
      then obtain data' sh' extra' device' p t where
        a: "arg = TTuple (TBinary data' # TShapeResource sh' # extra')"
           "rt_LookupDevice (client cl) device_id = Inr device'"
           "rt_BufferFromHostBuffer (client cl) (calls w1 @ p @ [CLookupDevice device_id])
              data' sh' device' = Inr (buffer b)"
           "release_after_run b"
           "calls w' = calls w1 @ p @
              [CLookupDevice device_id, CBufferFromHostBuffer data' sh' device'] @ t"
        by blast
      let ?p = "[CLookupDevice device_id, CBufferFromHostBuffer data sh device] @ p"
      have "rt_BufferFromHostBuffer (client cl) (calls w @ ?p @ [CLookupDevice device_id])
              data' sh' device' = Inr (buffer b)"
        "calls w' = calls w @ ?p @
           [CLookupDevice device_id, CBufferFromHostBuffer data' sh' device'] @ t"
        using a(3,5) w1 by simp_all
      with a(1,2,4) show ?thesis
        by blast
    qed
    have "list_all2 (?R w) args new"
      using new(2) by (rule list_all2_mono) (rule mono)
    with head have "list_all2 (?R w) (head # args) (buf # new)"
      by simp
    moreover have "bufs = acc @ (buf # new)"
      using new(1) by simp
    ultimately show ?thesis by blast
  next
    case malformed
    from loop_malformed [OF malformed, of cl "enif_make_list_from_array args" device_id acc w]
    show ?thesis
      using Cons.prems by (auto simp: enif_make_list_Cons simp del: UnpackRunArguments_loop.simps)
  qed
qed



lemma Run_loop_log:
  assumes "Run_loop rt bufs pbs terms w = (r, w')"
  shows "(\<exists>cs. calls w' = calls w @ cs \<and> (\<forall>c \<in> set cs. \<exists>pb. c = CBlockHostUntilReady pb)) \<and>
         (\<exists>rs. resources w' = resources w @ rs)"
  using assms
proof (induction bufs arbitrary: pbs terms w)
  case Nil
  then show ?case by simp
next
  case (Cons buf bufs)
  show ?case
  proof (cases "release_after_run buf")
    case False
    with Cons show ?thesis by simp
  next
    case True
    show ?thesis
    proof (cases "rt_BlockHostUntilReady rt (calls w) (buffer buf)")
      case (Inl e)
      with Cons.prems True show ?thesis
        by (auto simp: BlockHostUntilReady_def PjRt_BlockHostUntilReady_def calls_invoke
            resources_invoke)
    next
      case (Inr u)
      let ?w1 = "(invoke (CBlockHostUntilReady (buffer buf)) w)
                   \<lparr>resources := resources w @ [buf]\<rparr>"
      from Cons.prems True Inr have
        "Run_loop rt bufs (pbs @ [buffer buf]) (terms @ [TBufferResource buf]) ?w1 = (r, w')"
        by (simp add: BlockHostUntilReady_def PjRt_BlockHostUntilReady_def make_buffer_def
            resources_invoke)
      from Cons.IH [OF this] obtain cs rs where
        "calls w' = calls ?w1 @ cs" "\<forall>c \<in> set cs. \<exists>pb. c = CBlockHostUntilReady pb"
        "resources w' = resources ?w1 @ rs"
        by blast
      then have "calls w' = calls w @ (CBlockHostUntilReady (buffer buf) # cs)"
        "\<forall>c \<in> set (CBlockHostUntilReady (buffer buf) # cs). \<exists>pb. c = CBlockHostUntilReady pb"
        "resources w' = resources w @ (buf # rs)"
        by (simp_all add: calls_invoke)
      then show ?thesis by blast
    qed
  qed
qed

lemma Run_loop_success:
  assumes "Run_loop rt bufs pbs terms w = (Inr (pbs', terms'), w')"
  shows "pbs' = pbs @ map buffer bufs \<and>
         (\<forall>buf \<in> set bufs. release_after_run buf \<longrightarrow>
            buf \<in> set (resources w') \<and>
            (\<exists>p t. calls w' = calls w @ p @ CBlockHostUntilReady (buffer buf) # t \<and>
                   rt_BlockHostUntilReady rt (calls w @ p) (buffer buf) = OK))"
  using assms
proof (induction bufs arbitrary: pbs terms w)
  case Nil
  then show ?case by simp
next
  case (Cons buf bufs)
  show ?case
  proof (cases "release_after_run buf")
    case False
    with Cons.prems have "Run_loop rt bufs (pbs @ [buffer buf]) terms w = (Inr (pbs', terms'), w')"
      by simp
    from Cons.IH [OF this] False show ?thesis
      by auto
  next
    case True
    let ?w1 = "(invoke (CBlockHostUntilReady (buffer buf)) w)
                 \<lparr>resources := resources w @ [buf]\<rparr>"
    from Cons.prems True have ok: "rt_BlockHostUntilReady rt (calls w) (buffer buf) = OK"
      and rest: "Run_loop rt bufs (pbs @ [buffer buf]) (terms @ [TBufferResource buf]) ?w1 =
                   (Inr (pbs', terms'), w')"
      by (auto simp: BlockHostUntilReady_def PjRt_BlockHostUntilReady_def make_buffer_def
          resources_invoke split: sum.splits)
    from Cons.IH [OF rest] have
      ih: "pbs' = (pbs @ [buffer buf]) @ map buffer bufs"
        "\<forall>b \<in> set bufs. release_after_run b \<longrightarrow>
            b \<in> set (resources w') \<and>
            (\<exists>p t. calls w' = calls ?w1 @ p @ CBlockHostUntilReady (buffer b) # t \<and>
                   rt_BlockHostUntilReady rt (calls ?w1 @ p) (buffer b) = OK)"
      by blast+
    from Run_loop_log [OF rest] obtain cs rs where
      ext: "calls w' = calls ?w1 @ cs" "resources w' = resources ?w1 @ rs"
      by blast
    have first: "buf \<in> set (resources w')"
      "\<exists>p t. calls w' = calls w @ p @ CBlockHostUntilReady (buffer buf) # t \<and>
             rt_BlockHostUntilReady rt (calls w @ p) (buffer buf) = OK"
    proof -
      show "buf \<in> set (resources w')"
        using ext(2) by simp
      have "calls w' = calls w @ [] @ CBlockHostUntilReady (buffer buf) # cs"
        using ext(1) by (simp add: calls_invoke)
      moreover have "rt_BlockHostUntilReady rt (calls w @ []) (buffer buf) = OK"
        using ok by simp
      ultimately show "\<exists>p t. calls w' = calls w @ p @ CBlockHostUntilReady (buffer buf) # t \<and>
             rt_BlockHostUntilReady rt (calls w @ p) (buffer buf) = OK"
        by blast
    qed
    have later: "b \<in> set (resources w') \<and>
            (\<exists>p t. calls w' = calls w @ p @ CBlockHostUntilReady (buffer b) # t \<and>
                   rt_BlockHostUntilReady rt (calls w @ p) (buffer b) = OK)"
      if "b \<in> set bufs" "release_after_run b" for b
    proof -
      from ih(2) that obtain p t where
        b: "b \<in> set (resources w')"
           "calls w' = calls ?w1 @ p @ CBlockHostUntilReady (buffer b) # t"
           "rt_BlockHostUntilReady rt (calls ?w1 @ p) (buffer b) = OK"
        by blast
      let ?p = "CBlockHostUntilReady (buffer buf) # p"
      have "calls w' = calls w @ ?p @ CBlockHostUntilReady (buffer b) # t"
        "rt_BlockHostUntilReady rt (calls w @ ?p) (buffer b) = OK"
        using b(2,3) by (simp_all add: calls_invoke)
      with b(1) show ?thesis by blast
    qed
    show ?thesis
      using ih(1) first later by auto
  qed
qed


lemma calls_destroy_all: "calls (destroy_all pbs w) = calls w @ map CDestroy pbs"
  by (induction pbs arbitrary: w) (simp_all add: Destroy_def calls_invoke)

lemma resources_destroy_all: "resources (destroy_all pbs w) = resources w"
  by (induction pbs arbitrary: w) (simp_all add: Destroy_def resources_invoke)

lemma ToBinary_eq:
  "ToBinary rt b sz w =
     (case rt_BlockHostUntilReady rt (calls w) (buffer b) of
        Inl e \<Rightarrow> (Inl e, invoke (CBlockHostUntilReady (buffer b)) w)
      | Inr u \<Rightarrow>
          (case rt_ToLiteral rt (calls w @ [CBlockHostUntilReady (buffer b)]) (buffer b) of
             Inl e \<Rightarrow>
               (Inl e, invoke (CToLiteral (buffer b)) (invoke (CBlockHostUntilReady (buffer b)) w))
           | Inr lit \<Rightarrow>
               (Inr (TBinary (CopyLiteralToBinary
                  (if LayoutsInShapesEqual
                        (MakeShape (element_type (on_device_shape (buffer b)))
                                   (dimensions (on_device_shape (buffer b))))
                        (literal_shape lit)
                   then lit
                   else rt_Relayout rt lit
                          (MakeShape (element_type (on_device_shape (buffer b)))
                                     (dimensions (on_device_shape (buffer b))))) sz)),
                invoke (CToLiteral (buffer b)) (invoke (CBlockHostUntilReady (buffer b)) w))))"
  by (simp add: ToBinary_def EFFECT_OR_RETURN_def ASSIGN_OR_RETURN_def
      PjRt_BlockHostUntilReady_def ToLiteral_def return_def calls_invoke Let_def
      split: sum.splits)

lemma UnpackResult_loop_keep:
  "UnpackResult_loop rt result True terms w =
     (Inr (terms @ map (\<lambda>pb. TBufferResource \<lparr>buffer = pb, release_after_run = False\<rparr>) result),
      w\<lparr>resources := resources w @
           map (\<lambda>pb. \<lparr>buffer = pb, release_after_run = False\<rparr>) result\<rparr>)"
  by (induction result arbitrary: terms w) (simp_all add: make_buffer_def Let_def)

lemma UnpackResult_loop_copy_log:
  assumes "UnpackResult_loop rt result False terms w = (r, w')"
  shows "resources w' = resources w \<and>
         (\<exists>cs. calls w' = calls w @ cs \<and>
            (\<forall>c \<in> set cs. \<exists>pb. c = CBlockHostUntilReady pb \<or> c = CToLiteral pb \<or>
                                   c = CDestroy pb))"
  using assms
proof (induction result arbitrary: terms w)
  case Nil
  then show ?case by simp
next
  case (Cons pb result)
  let ?b = "\<lparr>buffer = pb, release_after_run = False\<rparr>"
  obtain res w1 where tb: "ToBinary rt ?b (- 1) w = (res, w1)"
    by (cases "ToBinary rt ?b (- 1) w")
  then have w1: "resources w1 = resources w"
    "\<exists>cs. calls w1 = calls w @ cs \<and>
       (\<forall>c \<in> set cs. \<exists>pb. c = CBlockHostUntilReady pb \<or> c = CToLiteral pb \<or> c = CDestroy pb)"
    by (auto simp: ToBinary_eq calls_invoke resources_invoke split: sum.splits)
  then obtain cs1 where cs1: "calls w1 = calls w @ cs1"
    "\<forall>c \<in> set cs1. \<exists>pb. c = CBlockHostUntilReady pb \<or> c = CToLiteral pb \<or> c = CDestroy pb"
    by blast
  show ?case
  proof (cases res)
    case (Inl e)
    with Cons.prems tb have "w' = destroy_all result w1"
      by (simp add: Let_def)
    then have "resources w' = resources w"
      "calls w' = calls w @ (cs1 @ map CDestroy result)"
      using w1(1) cs1(1) by (simp_all add: calls_destroy_all resources_destroy_all)
    moreover have "\<forall>c \<in> set (cs1 @ map CDestroy result).
        \<exists>pb. c = CBlockHostUntilReady pb \<or> c = CToLiteral pb \<or> c = CDestroy pb"
      using cs1(2) by auto
    ultimately show ?thesis by blast
  next
    case (Inr t)
    with Cons.prems tb have
      "UnpackResult_loop rt result False (terms @ [t]) (delete_ExlaBuffer ?b w1) = (r, w')"
      by (simp add: Let_def)
    from Cons.IH [OF this] obtain cs where
      "resources w' = resources (delete_ExlaBuffer ?b w1)"
      "calls w' = calls (delete_ExlaBuffer ?b w1) @ cs"
      "\<forall>c \<in> set cs. \<exists>pb. c = CBlockHostUntilReady pb \<or> c = CToLiteral pb \<or> c = CDestroy pb"
      by blast
    then have "resources w' = resources w"
      "calls w' = calls w @ (cs1 @ CDestroy pb # cs)"
      "\<forall>c \<in> set (cs1 @ CDestroy pb # cs).
         \<exists>pb. c = CBlockHostUntilReady pb \<or> c = CToLiteral pb \<or> c = CDestroy pb"
      using w1(1) cs1 by (auto simp: delete_ExlaBuffer_def Destroy_def calls_invoke resources_invoke)
    then show ?thesis by blast
  qed
qed

lemma UnpackResult_loop_copy_success:
  assumes "UnpackResult_loop rt result False terms w = (Inr terms', w')"
  shows "calls w' = calls w @
           concat (map (\<lambda>pb. [CBlockHostUntilReady pb, CToLiteral pb, CDestroy pb]) result) \<and>
         (\<exists>bins. length bins = length result \<and> terms' = terms @ map TBinary bins \<and>
            (\<forall>i < length result. \<exists>wi.
               calls wi = calls w @
                 concat (map (\<lambda>pb. [CBlockHostUntilReady pb, CToLiteral pb, CDestroy pb])
                           (take i result)) \<and>
               fst (ToBinary rt \<lparr>buffer = result ! i, release_after_run = False\<rparr> (- 1) wi) =
                 Inr (TBinary (bins ! i))))"
  using assms
proof (induction result arbitrary: terms w)
  case Nil
  then show ?case by simp
next
  case (Cons pb result)
  let ?triple = "\<lambda>pb. [CBlockHostUntilReady pb, CToLiteral pb, CDestroy pb]"
  let ?b = "\<lparr>buffer = pb, release_after_run = False\<rparr>"
  let ?w1 = "invoke (CToLiteral pb) (invoke (CBlockHostUntilReady pb) w)"
  let ?w2 = "delete_ExlaBuffer ?b ?w1"
  from Cons.prems obtain bytes where
    tb: "ToBinary rt ?b (- 1) w = (Inr (TBinary bytes), ?w1)"
    and rest: "UnpackResult_loop rt result False (terms @ [TBinary bytes]) ?w2 = (Inr terms', w')"
    by (auto simp: ToBinary_eq Let_def split: sum.splits)
  have w2: "calls ?w2 = calls w @ ?triple pb"
    by (simp add: delete_ExlaBuffer_def Destroy_def calls_invoke)
  from Cons.IH [OF rest] obtain bins where
    ih: "calls w' = calls ?w2 @ concat (map ?triple result)"
      "length bins = length result" "terms' = (terms @ [TBinary bytes]) @ map TBinary bins"
      "\<forall>i < length result. \<exists>wi.
         calls wi = calls ?w2 @ concat (map ?triple (take i result)) \<and>
         fst (ToBinary rt \<lparr>buffer = result ! i, release_after_run = False\<rparr> (- 1) wi) =
           Inr (TBinary (bins ! i))"
    by blast
  have log: "calls w' = calls w @ concat (map ?triple (pb # result))"
    using ih(1) w2 by simp
  have shape: "length (bytes # bins) = length (pb # result)"
    "terms' = terms @ map TBinary (bytes # bins)"
    using ih(2,3) by simp_all
  have each: "\<exists>wi. calls wi = calls w @ concat (map ?triple (take i (pb # result))) \<and>
      fst (ToBinary rt \<lparr>buffer = (pb # result) ! i, release_after_run = False\<rparr> (- 1) wi) =
        Inr (TBinary ((bytes # bins) ! i))"
    if "i < length (pb # result)" for i
  proof (cases i)
    case 0
    with tb have "calls w = calls w @ concat (map ?triple (take i (pb # result))) \<and>
      fst (ToBinary rt \<lparr>buffer = (pb # result) ! i, release_after_run = False\<rparr> (- 1) w) =
        Inr (TBinary ((bytes # bins) ! i))"
      by simp
    then show ?thesis by blast
  next
    case (Suc j)
    with that have "j < length result" by simp
    with ih(4) obtain wi where
      "calls wi = calls ?w2 @ concat (map ?triple (take j result))"
      "fst (ToBinary rt \<lparr>buffer = result ! j, release_after_run = False\<rparr> (- 1) wi) =
         Inr (TBinary (bins ! j))"
      by blast
    with Suc w2 have "calls wi = calls w @ concat (map ?triple (take i (pb # result))) \<and>
      fst (ToBinary rt \<lparr>buffer = (pb # result) ! i, release_after_run = False\<rparr> (- 1) wi) =
        Inr (TBinary ((bytes # bins) ! i))"
      by simp
    then show ?thesis by blast
  qed
  show ?case
    using log shape each by blast
qed

lemma UnpackResult_eq:
  "UnpackResult rt result keep w =
     (case UnpackResult_loop rt result keep [] w of
        (Inl e, w') \<Rightarrow> (Inl e, w')
      | (Inr terms, w') \<Rightarrow> (Inr (nif_ok (TTuple [enif_make_list_from_array terms, TInt 0])), w'))"
  by (simp add: UnpackResult_def ASSIGN_OR_RETURN_def return_def split: prod.splits sum.splits)

lemma Run_cases [consumes 1, case_names decode_failed wait_failed lookup_failed
    portable_failed portable_ran execute_failed no_replica execute_ran]:
  assumes "Run this arguments keep device_id w = (r, w')"
  obtains
    e where
      "UnpackRunArguments arguments (exe_client this) (if 0 \<le> device_id then device_id else 0) w =
         (Inl e, w')"
      "r = Inl e"
  | bufs w1 e where
      "UnpackRunArguments arguments (exe_client this) (if 0 \<le> device_id then device_id else 0) w =
         (Inr bufs, w1)"
      "Run_loop (client (exe_client this)) bufs [] [] w1 = (Inl e, w')"
      "r = Inl e"
  | bufs w1 pbs terms w2 e where
      "0 \<le> device_id"
      "UnpackRunArguments arguments (exe_client this) (if 0 \<le> device_id then device_id else 0) w =
         (Inr bufs, w1)"
      "Run_loop (client (exe_client this)) bufs [] [] w1 = (Inr (pbs, terms), w2)"
      "rt_LookupDevice (client (exe_client this)) device_id = Inl e"
      "r = Inl e"
      "w' = invoke (CLookupDevice device_id) w2"
  | bufs w1 pbs terms w2 device e where
      "0 \<le> device_id"
      "UnpackRunArguments arguments (exe_client this) (if 0 \<le> device_id then device_id else 0) w =
         (Inr bufs, w1)"
      "Run_loop (client (exe_client this)) bufs [] [] w1 = (Inr (pbs, terms), w2)"
      "rt_LookupDevice (client (exe_client this)) device_id = Inr device"
      "rt_ExecutePortable (client (exe_client this)) (calls w2 @ [CLookupDevice device_id])
         (executable this) pbs device \<lparr>untuple_result = True, strict_shape_checking = False\<rparr> =
         Inl e"
      "r = Inl e"
      "w' = invoke (CExecutePortable (executable this) pbs device
                      \<lparr>untuple_result = True, strict_shape_checking = False\<rparr>)
              (invoke (CLookupDevice device_id) w2)"
  | bufs w1 pbs terms w2 device result where
      "0 \<le> device_id"
      "UnpackRunArguments arguments (exe_client this) (if 0 \<le> device_id then device_id else 0) w =
         (Inr bufs, w1)"
      "Run_loop (client (exe_client this)) bufs [] [] w1 = (Inr (pbs, terms), w2)"
      "rt_LookupDevice (client (exe_client this)) device_id = Inr device"
      "rt_ExecutePortable (client (exe_client this)) (calls w2 @ [CLookupDevice device_id])
         (executable this) pbs device \<lparr>untuple_result = True, strict_shape_checking = False\<rparr> =
         Inr result"
      "UnpackResult (client (exe_client this)) result keep
         (invoke (CExecutePortable (executable this) pbs device
                    \<lparr>untuple_result = True, strict_shape_checking = False\<rparr>)
            (invoke (CLookupDevice device_id) w2)) = (r, w')"
  | bufs w1 pbs terms w2 e where
      "device_id < 0"
      "UnpackRunArguments arguments (exe_client this) (if 0 \<le> device_id then device_id else 0) w =
         (Inr bufs, w1)"
      "Run_loop (client (exe_client this)) bufs [] [] w1 = (Inr (pbs, terms), w2)"
      "rt_Execute (client (exe_client this)) (calls w2) (executable this) [pbs]
         \<lparr>untuple_result = True, strict_shape_checking = False\<rparr> = Inl e"
      "r = Inl e"
      "w' = invoke (CExecute (executable this) [pbs]
                      \<lparr>untuple_result = True, strict_shape_checking = False\<rparr>) w2"
  | bufs w1 pbs terms w2 where
      "device_id < 0"
      "UnpackRunArguments arguments (exe_client this) (if 0 \<le> device_id then device_id else 0) w =
         (Inr bufs, w1)"
      "Run_loop (client (exe_client this)) bufs [] [] w1 = (Inr (pbs, terms), w2)"
      "rt_Execute (client (exe_client this)) (calls w2) (executable this) [pbs]
         \<lparr>untuple_result = True, strict_shape_checking = False\<rparr> = Inr []"
      "r = Inl (Abort ''std::out_of_range'')"
      "w' = invoke (CExecute (executable this) [pbs]
                      \<lparr>untuple_result = True, strict_shape_checking = False\<rparr>) w2"
  | bufs w1 pbs terms w2 first others w3 where
      "device_id < 0"
      "UnpackRunArguments arguments (exe_client this) (if 0 \<le> device_id then device_id else 0) w =
         (Inr bufs, w1)"
      "Run_loop (client (exe_client this)) bufs [] [] w1 = (Inr (pbs, terms), w2)"
      "rt_Execute (client (exe_client this)) (calls w2) (executable this) [pbs]
         \<lparr>untuple_result = True, strict_shape_checking = False\<rparr> = Inr (first # others)"
      "UnpackResult (client (exe_client this)) first keep
         (invoke (CExecute (executable this) [pbs]
                    \<lparr>untuple_result = True, strict_shape_checking = False\<rparr>) w2) = (r, w3)"
      "w' = destroy_all (concat others) w3"
proof -
  let ?rt = "client (exe_client this)"
  let ?id = "if 0 \<le> device_id then device_id else 0"
  let ?opts = "\<lparr>untuple_result = True, strict_shape_checking = False\<rparr>"
  obtain d w1 where d: "UnpackRunArguments arguments (exe_client this) ?id w = (d, w1)"
    by (cases "UnpackRunArguments arguments (exe_client this) ?id w")
  show thesis
  proof (cases d)
    case (Inl e)
    with assms d have "r = Inl e" "w' = w1"
      by (auto simp: Run_def ASSIGN_OR_RETURN_def split: if_splits)
    with d Inl show thesis
      by (auto intro: that(1))
  next
    case (Inr bufs)
    obtain l w2 where l: "Run_loop ?rt bufs [] [] w1 = (l, w2)"
      by (cases "Run_loop ?rt bufs [] [] w1")
    show thesis
    proof (cases l)
      case (Inl e)
      with assms d Inr l have "r = Inl e" "w' = w2"
        by (auto simp: Run_def ASSIGN_OR_RETURN_def split: if_splits)
      with d Inr l Inl show thesis
        by (auto intro: that(2))
    next
      case (Inr pt)
      obtain pbs terms where pt: "pt = (pbs, terms)"
        by (cases pt)
      note phases = d \<open>d = Inr bufs\<close> l Inr pt
      show thesis
      proof (cases "0 \<le> device_id")
        case True
        with assms phases have dispatch:
          "(case rt_LookupDevice ?rt device_id of
              Inl e \<Rightarrow> (Inl e, invoke (CLookupDevice device_id) w2)
            | Inr device \<Rightarrow>
                (case rt_ExecutePortable ?rt (calls w2 @ [CLookupDevice device_id])
                        (executable this) pbs device ?opts of
                   Inl e \<Rightarrow>
                     (Inl e, invoke (CExecutePortable (executable this) pbs device ?opts)
                               (invoke (CLookupDevice device_id) w2))
                 | Inr result \<Rightarrow>
                     UnpackResult ?rt result keep
                       (invoke (CExecutePortable (executable this) pbs device ?opts)
                          (invoke (CLookupDevice device_id) w2)))) = (r, w')"
          by (auto simp: Run_def ASSIGN_OR_RETURN_def LookupDevice_def ExecutePortable_def
              return_def calls_invoke split: sum.splits prod.splits)
        show thesis
        proof (cases "rt_LookupDevice ?rt device_id")
          case (Inl e)
          with dispatch True phases show thesis
            by (auto intro: that(3))
        next
          case dev: (Inr device)
          show thesis
          proof (cases "rt_ExecutePortable ?rt (calls w2 @ [CLookupDevice device_id])
                          (executable this) pbs device ?opts")
            case (Inl e)
            with dispatch True phases dev show thesis
              by (auto intro: that(4))
          next
            case (Inr result)
            with dispatch True phases dev show thesis
              by (auto intro: that(5))
          qed
        qed
      next
        case False
        with assms phases have dispatch:
          "(case rt_Execute ?rt (calls w2) (executable this) [pbs] ?opts of
              Inl e \<Rightarrow> (Inl e, invoke (CExecute (executable this) [pbs] ?opts) w2)
            | Inr [] \<Rightarrow>
                (Inl (Abort ''std::out_of_range''),
                 invoke (CExecute (executable this) [pbs] ?opts) w2)
            | Inr (first # others) \<Rightarrow>
                (case UnpackResult ?rt first keep
                        (invoke (CExecute (executable this) [pbs] ?opts) w2) of
                   (r, w3) \<Rightarrow> (r, destroy_all (concat others) w3))) = (r, w')"
          by (auto simp: Run_def ASSIGN_OR_RETURN_def Execute_def fail_def Let_def
              split: sum.splits prod.splits list.splits)
        show thesis
        proof (cases "rt_Execute ?rt (calls w2) (executable this) [pbs] ?opts")
          case (Inl e)
          with dispatch False phases show thesis
            by (auto intro: that(6))
        next
          case (Inr replicas)
          show thesis
          proof (cases replicas)
            case Nil
            with dispatch False phases Inr show thesis
              by (auto intro: that(7))
          next
            case (Cons first others)
            with dispatch False phases Inr show thesis
              by (auto intro: that(8) split: prod.splits)
          qed
        qed
      qed
    qed
  qed
qed

lemma calls_since_append:
  assumes "calls w' = calls w @ cs"
  shows "calls_since w w' = cs"
  using assms by (simp add: calls_since_def)

lemma UnpackRunArguments_log:
  assumes "UnpackRunArguments arguments cl device_id w = (r, w')"
  shows "resources w' = resources w \<and>
         (\<exists>cs. calls w' = calls w @ cs \<and>
            (\<forall>c \<in> set cs. c = CLookupDevice device_id \<or>
               (\<exists>data sh device. c = CBufferFromHostBuffer data sh device \<and>
                  rt_LookupDevice (client cl) device_id = Inr device)))"
proof (cases "enif_get_list_length arguments")
  case None
  with assms show ?thesis
    by (simp add: UnpackRunArguments_def)
next
  case (Some n)
  with assms have "UnpackRunArguments_loop cl arguments device_id [] w = (r, w')"
    by (simp add: UnpackRunArguments_def)
  then show ?thesis
    by (rule UnpackRunArguments_loop_log)
qed

lemma UnpackResult_log:
  assumes "UnpackResult rt result keep w = (r, w')"
  shows "\<exists>cs rs. calls w' = calls w @ cs \<and> resources w' = resources w @ rs \<and>
           (keep \<longrightarrow> cs = []) \<and>
           (\<forall>c \<in> set cs. \<exists>pb. c = CBlockHostUntilReady pb \<or> c = CToLiteral pb \<or>
                                  c = CDestroy pb)"
proof (cases keep)
  case True
  with assms have "calls w' = calls w @ []"
    "resources w' = resources w @ map (\<lambda>pb. \<lparr>buffer = pb, release_after_run = False\<rparr>) result"
    by (auto simp: UnpackResult_eq UnpackResult_loop_keep)
  then show ?thesis
    by (metis empty_iff list.set(1))
next
  case False
  obtain l w1 where l: "UnpackResult_loop rt result False [] w = (l, w1)"
    by (cases "UnpackResult_loop rt result False [] w")
  with assms False have "w' = w1"
    by (auto simp: UnpackResult_eq split: sum.splits)
  with UnpackResult_loop_copy_log [OF l] False show ?thesis
    by auto
qed

lemma UnpackResult_success:
  assumes "UnpackResult rt result keep w = (Inr ret, w')"
  shows "\<exists>terms. ret = nif_ok (TTuple [enif_make_list_from_array terms, TInt 0]) \<and>
           (keep \<longrightarrow>
              terms = map (\<lambda>pb. TBufferResource \<lparr>buffer = pb, release_after_run = False\<rparr>) result \<and>
              calls w' = calls w \<and>
              resources w' = resources w @
                map (\<lambda>pb. \<lparr>buffer = pb, release_after_run = False\<rparr>) result) \<and>
           (\<not> keep \<longrightarrow>
              (\<exists>bins. length bins = length result \<and> terms = map TBinary bins \<and>
                 (\<forall>i < length result. \<exists>wi.
                    calls wi = calls w @
                      concat (map (\<lambda>pb. [CBlockHostUntilReady pb, CToLiteral pb, CDestroy pb])
                                (take i result)) \<and>
                    fst (ToBinary rt \<lparr>buffer = result ! i, release_after_run = False\<rparr> (- 1) wi) =
                      Inr (TBinary (bins ! i)))) \<and>
              calls w' = calls w @
                concat (map (\<lambda>pb. [CBlockHostUntilReady pb, CToLiteral pb, CDestroy pb]) result) \<and>
              resources w' = resources w)"
proof (cases keep)
  case True
  with assms show ?thesis
    by (auto simp: UnpackResult_eq UnpackResult_loop_keep)
next
  case False
  with assms obtain terms where
    l: "UnpackResult_loop rt result False [] w = (Inr terms, w')"
    and ret: "ret = nif_ok (TTuple [enif_make_list_from_array terms, TInt 0])"
    by (auto simp: UnpackResult_eq split: sum.splits prod.splits)
  from UnpackResult_loop_copy_success [OF l] UnpackResult_loop_copy_log [OF l] ret False
  show ?thesis
    by auto
qed

lemma Run_log:
  assumes "Run this arguments keep device_id w = (r, w')"
  shows "\<exists>cs. calls w' = calls w @ cs \<and>
           (\<forall>c \<in> set cs.
              c = CLookupDevice (if 0 \<le> device_id then device_id else 0) \<or>
              (\<exists>data sh device. c = CBufferFromHostBuffer data sh device \<and>
                 rt_LookupDevice (client (exe_client this))
                   (if 0 \<le> device_id then device_id else 0) = Inr device) \<or>
              (\<exists>pb. c = CBlockHostUntilReady pb) \<or>
              (\<not> keep \<and> (\<exists>pb. c = CToLiteral pb)) \<or>
              (\<exists>pb. c = CDestroy pb) \<or>
              (0 \<le> device_id \<and>
                 (\<exists>pbs device. c = CExecutePortable (executable this) pbs device
                      \<lparr>untuple_result = True, strict_shape_checking = False\<rparr> \<and>
                    rt_LookupDevice (client (exe_client this)) device_id = Inr device)) \<or>
              (device_id < 0 \<and>
                 (\<exists>pbs. c = CExecute (executable this) [pbs]
                      \<lparr>untuple_result = True, strict_shape_checking = False\<rparr>)))"
    (is "\<exists>cs. calls w' = calls w @ cs \<and> (\<forall>c \<in> set cs. ?ok c)")
proof -
  let ?rt = "client (exe_client this)"
  let ?id = "if 0 \<le> device_id then device_id else 0"
  let ?opts = "\<lparr>untuple_result = True, strict_shape_checking = False\<rparr>"
  have decode: "\<exists>cs. calls w1 = calls w @ cs \<and> (\<forall>c \<in> set cs. ?ok c)"
    if "UnpackRunArguments arguments (exe_client this) ?id w = (d, w1)" for d w1
    using UnpackRunArguments_log [OF that] by fast
  have wait: "\<exists>cs. calls w2 = calls w @ cs \<and> (\<forall>c \<in> set cs. ?ok c)"
    if "UnpackRunArguments arguments (exe_client this) ?id w = (d, w1)"
      "Run_loop ?rt bufs pbs0 terms0 w1 = (l, w2)" for d w1 bufs pbs0 terms0 l w2
  proof -
    from decode [OF that(1)] obtain cs1 where
      "calls w1 = calls w @ cs1" "\<forall>c \<in> set cs1. ?ok c"
      by blast
    moreover from Run_loop_log [OF that(2)] obtain cs2 where
      "calls w2 = calls w1 @ cs2" "\<forall>c \<in> set cs2. \<exists>pb. c = CBlockHostUntilReady pb"
      by blast
    ultimately have "calls w2 = calls w @ (cs1 @ cs2)" "\<forall>c \<in> set (cs1 @ cs2). ?ok c"
      by auto
    then show ?thesis by blast
  qed
  have extend: "\<exists>cs. calls w' = calls w @ cs \<and> (\<forall>c \<in> set cs. ?ok c)"
    if "\<exists>cs. calls w2 = calls w @ cs \<and> (\<forall>c \<in> set cs. ?ok c)"
      "calls w' = calls w2 @ more" "\<forall>c \<in> set more. ?ok c" for w2 :: world and more
  proof -
    from that(1) obtain cs where "calls w2 = calls w @ cs" "\<forall>c \<in> set cs. ?ok c"
      by blast
    with that(2,3) have "calls w' = calls w @ (cs @ more)" "\<forall>c \<in> set (cs @ more). ?ok c"
      by auto
    then show ?thesis by blast
  qed
  have readback: "\<exists>more. calls w4 = calls w3 @ more \<and>
      (\<forall>c \<in> set more. (\<exists>pb. c = CBlockHostUntilReady pb) \<or>
          (\<not> keep \<and> (\<exists>pb. c = CToLiteral pb)) \<or> (\<exists>pb. c = CDestroy pb))"
    if "UnpackResult ?rt result keep w3 = (r, w4)" for result w3 w4
  proof -
    from UnpackResult_log [OF that] obtain cs where
      cs: "calls w4 = calls w3 @ cs" "keep \<longrightarrow> cs = []"
        "\<forall>c \<in> set cs. \<exists>pb. c = CBlockHostUntilReady pb \<or> c = CToLiteral pb \<or> c = CDestroy pb"
      by blast
    have "\<forall>c \<in> set cs. (\<exists>pb. c = CBlockHostUntilReady pb) \<or>
          (\<not> keep \<and> (\<exists>pb. c = CToLiteral pb)) \<or> (\<exists>pb. c = CDestroy pb)"
    proof (cases keep)
      case True
      with cs(2) show ?thesis by simp
    next
      case False
      with cs(3) show ?thesis by blast
    qed
    with cs(1) show ?thesis by blast
  qed
  from assms show ?thesis
  proof (cases rule: Run_cases)
    case (decode_failed e)
    then show ?thesis using decode by blast
  next
    case (wait_failed bufs w1 e)
    then show ?thesis using wait by blast
  next
    case (lookup_failed bufs w1 pbs terms w2 e)
    have "calls w' = calls w2 @ [CLookupDevice device_id]"
      "\<forall>c \<in> set [CLookupDevice device_id]. ?ok c"
      using lookup_failed by (simp_all add: calls_invoke)
    with wait [OF lookup_failed(2,3)] show ?thesis
      by (rule extend)
  next
    case (portable_failed bufs w1 pbs terms w2 device e)
    have "calls w' = calls w2 @ [CLookupDevice device_id,
            CExecutePortable (executable this) pbs device ?opts]"
      "\<forall>c \<in> set [CLookupDevice device_id,
            CExecutePortable (executable this) pbs device ?opts]. ?ok c"
      using portable_failed by (simp_all add: calls_invoke)
    with wait [OF portable_failed(2,3)] show ?thesis
      by (rule extend)
  next
    case (portable_ran bufs w1 pbs terms w2 device result)
    from readback [OF portable_ran(6)] obtain more where
      more: "calls w' = calls (invoke (CExecutePortable (executable this) pbs device ?opts)
                (invoke (CLookupDevice device_id) w2)) @ more"
        "\<forall>c \<in> set more. (\<exists>pb. c = CBlockHostUntilReady pb) \<or>
          (\<not> keep \<and> (\<exists>pb. c = CToLiteral pb)) \<or> (\<exists>pb. c = CDestroy pb)"
      by blast
    have "calls w' = calls w2 @ ([CLookupDevice device_id,
            CExecutePortable (executable this) pbs device ?opts] @ more)"
      using more(1) by (simp add: calls_invoke)
    moreover have "\<forall>c \<in> set ([CLookupDevice device_id,
            CExecutePortable (executable this) pbs device ?opts] @ more). ?ok c"
      using more(2) portable_ran(1,4) by auto
    ultimately show ?thesis
      using wait [OF portable_ran(2,3)] by (intro extend)
  next
    case (execute_failed bufs w1 pbs terms w2 e)
    have "calls w' = calls w2 @ [CExecute (executable this) [pbs] ?opts]"
      "\<forall>c \<in> set [CExecute (executable this) [pbs] ?opts]. ?ok c"
      using execute_failed by (simp_all add: calls_invoke)
    with wait [OF execute_failed(2,3)] show ?thesis
      by (rule extend)
  next
    case (no_replica bufs w1 pbs terms w2)
    have "calls w' = calls w2 @ [CExecute (executable this) [pbs] ?opts]"
      "\<forall>c \<in> set [CExecute (executable this) [pbs] ?opts]. ?ok c"
      using no_replica by (simp_all add: calls_invoke)
    with wait [OF no_replica(2,3)] show ?thesis
      by (rule extend)
  next
    case (execute_ran bufs w1 pbs terms w2 first others w3)
    from readback [OF execute_ran(5)] obtain more where
      more: "calls w3 = calls (invoke (CExecute (executable this) [pbs] ?opts) w2) @ more"
        "\<forall>c \<in> set more. (\<exists>pb. c = CBlockHostUntilReady pb) \<or>
          (\<not> keep \<and> (\<exists>pb. c = CToLiteral pb)) \<or> (\<exists>pb. c = CDestroy pb)"
      by blast
    have "calls w' = calls w2 @ ([CExecute (executable this) [pbs] ?opts] @ more @
            map CDestroy (concat others))"
      using more(1) execute_ran(6) by (simp add: calls_invoke calls_destroy_all)
    moreover have "\<forall>c \<in> set ([CExecute (executable this) [pbs] ?opts] @ more @
            map CDestroy (concat others)). ?ok c"
      using more(2) execute_ran(1) by auto
    ultimately show ?thesis
      using wait [OF execute_ran(2,3)] by (intro extend)
  qed
qed


lemma Run_success:
  assumes "Run this arguments keep device_id w = (Inr ret, w')"
  shows "\<exists>p launch result q terms.
           calls w' = calls w @ p @ launch @
             (if keep then []
              else concat (map (\<lambda>pb. [CBlockHostUntilReady pb, CToLiteral pb, CDestroy pb]) result))
             @ map CDestroy q \<and>
           (\<forall>c \<in> set p.
              c = CLookupDevice (if 0 \<le> device_id then device_id else 0) \<or>
              (\<exists>data sh device. c = CBufferFromHostBuffer data sh device) \<or>
              (\<exists>pb. c = CBlockHostUntilReady pb)) \<and>
           ret = nif_ok (TTuple [enif_make_list_from_array terms, TInt 0]) \<and>
           (keep \<longrightarrow>
              terms = map (\<lambda>pb. TBufferResource \<lparr>buffer = pb, release_after_run = False\<rparr>) result \<and>
              (\<forall>pb \<in> set result.
                 \<lparr>buffer = pb, release_after_run = False\<rparr> \<in> set (resources w'))) \<and>
           (\<not> keep \<longrightarrow>
              (\<exists>bins. length bins = length result \<and> terms = map TBinary bins \<and>
                 (\<forall>i < length result. \<exists>wi.
                    calls wi = calls w @ p @ launch @
                      concat (map (\<lambda>pb. [CBlockHostUntilReady pb, CToLiteral pb, CDestroy pb])
                                (take i result)) \<and>
                    fst (ToBinary (client (exe_client this))
                           \<lparr>buffer = result ! i, release_after_run = False\<rparr> (- 1) wi) =
                      Inr (TBinary (bins ! i))))) \<and>
           (0 \<le> device_id \<longrightarrow>
              (\<exists>pbs device.
                 launch = [CLookupDevice device_id,
                           CExecutePortable (executable this) pbs device
                             \<lparr>untuple_result = True, strict_shape_checking = False\<rparr>] \<and>
                 rt_LookupDevice (client (exe_client this)) device_id = Inr device \<and>
                 rt_ExecutePortable (client (exe_client this))
                   (calls w @ p @ [CLookupDevice device_id]) (executable this) pbs device
                   \<lparr>untuple_result = True, strict_shape_checking = False\<rparr> = Inr result \<and>
                 q = [])) \<and>
           (device_id < 0 \<longrightarrow>
              (\<exists>pbs others.
                 launch = [CExecute (executable this) [pbs]
                             \<lparr>untuple_result = True, strict_shape_checking = False\<rparr>] \<and>
                 rt_Execute (client (exe_client this)) (calls w @ p) (executable this) [pbs]
                   \<lparr>untuple_result = True, strict_shape_checking = False\<rparr> =
                   Inr (result # others) \<and>
                 q = concat others))"
proof -
  let ?rt = "client (exe_client this)"
  let ?id = "if 0 \<le> device_id then device_id else 0"
  let ?opts = "\<lparr>untuple_result = True, strict_shape_checking = False\<rparr>"
  let ?triple = "\<lambda>pb. [CBlockHostUntilReady pb, CToLiteral pb, CDestroy pb]"
  let ?mk = "\<lambda>pb. \<lparr>buffer = pb, release_after_run = False\<rparr>"
  have inputs: "\<exists>p. calls w2 = calls w @ p \<and>
      (\<forall>c \<in> set p. c = CLookupDevice ?id \<or>
          (\<exists>data sh device. c = CBufferFromHostBuffer data sh device) \<or>
          (\<exists>pb. c = CBlockHostUntilReady pb))"
    if "UnpackRunArguments arguments (exe_client this) ?id w = (d, w1)"
      "Run_loop ?rt bufs [] [] w1 = (l, w2)" for d w1 bufs l w2
  proof -
    from UnpackRunArguments_log [OF that(1)] obtain cs1 where
      "calls w1 = calls w @ cs1"
      "\<forall>c \<in> set cs1. c = CLookupDevice ?id \<or>
          (\<exists>data sh device. c = CBufferFromHostBuffer data sh device \<and>
             rt_LookupDevice (client (exe_client this)) ?id = Inr device)"
      by blast
    moreover from Run_loop_log [OF that(2)] obtain cs2 where
      "calls w2 = calls w1 @ cs2" "\<forall>c \<in> set cs2. \<exists>pb. c = CBlockHostUntilReady pb"
      by blast
    ultimately have "calls w2 = calls w @ (cs1 @ cs2)"
      "\<forall>c \<in> set (cs1 @ cs2). c = CLookupDevice ?id \<or>
          (\<exists>data sh device. c = CBufferFromHostBuffer data sh device) \<or>
          (\<exists>pb. c = CBlockHostUntilReady pb)"
      by auto
    then show ?thesis by blast
  qed
  from assms show ?thesis
  proof (cases rule: Run_cases)
    case (portable_ran bufs w1 pbs terms0 w2 device result)
    from inputs [OF portable_ran(2,3)] obtain p where
      p: "calls w2 = calls w @ p"
        "\<forall>c \<in> set p. c = CLookupDevice ?id \<or>
          (\<exists>data sh device. c = CBufferFromHostBuffer data sh device) \<or>
          (\<exists>pb. c = CBlockHostUntilReady pb)"
      by blast
    let ?launch = "[CLookupDevice device_id, CExecutePortable (executable this) pbs device ?opts]"
    let ?w3 = "invoke (CExecutePortable (executable this) pbs device ?opts)
                 (invoke (CLookupDevice device_id) w2)"
    from UnpackResult_success [OF portable_ran(6)] obtain terms where
      terms: "ret = nif_ok (TTuple [enif_make_list_from_array terms, TInt 0])"
        "keep \<longrightarrow> terms = map (\<lambda>pb. TBufferResource (?mk pb)) result \<and>
           calls w' = calls ?w3 \<and> resources w' = resources ?w3 @ map ?mk result"
        "\<not> keep \<longrightarrow>
           (\<exists>bins. length bins = length result \<and> terms = map TBinary bins \<and>
              (\<forall>i < length result. \<exists>wi.
                 calls wi = calls ?w3 @ concat (map ?triple (take i result)) \<and>
                 fst (ToBinary ?rt (?mk (result ! i)) (- 1) wi) = Inr (TBinary (bins ! i)))) \<and>
           calls w' = calls ?w3 @ concat (map ?triple result) \<and> resources w' = resources ?w3"
      by blast
    have w3: "calls ?w3 = calls w @ p @ ?launch"
      using p(1) by (simp add: calls_invoke)
    have copied: "\<not> keep \<longrightarrow>
           (\<exists>bins. length bins = length result \<and> terms = map TBinary bins \<and>
              (\<forall>i < length result. \<exists>wi.
                 calls wi = calls w @ p @ ?launch @ concat (map ?triple (take i result)) \<and>
                 fst (ToBinary ?rt (?mk (result ! i)) (- 1) wi) = Inr (TBinary (bins ! i))))"
      using terms(3) unfolding w3 by simp
    have log: "calls w' = calls w @ p @ ?launch @
        (if keep then [] else concat (map ?triple result)) @ map CDestroy []"
      using terms(2,3) p(1) by (cases keep) (simp_all add: calls_invoke)
    have kept: "keep \<longrightarrow> terms = map (\<lambda>pb. TBufferResource (?mk pb)) result \<and>
        (\<forall>pb \<in> set result. ?mk pb \<in> set (resources w'))"
      using terms(2) by auto
    have exec: "rt_ExecutePortable ?rt (calls w @ p @ [CLookupDevice device_id])
        (executable this) pbs device ?opts = Inr result"
      using portable_ran(5) p(1) by simp
    show ?thesis
      using log p(2) terms(1) kept copied portable_ran(1,4) exec
      by (intro exI [of _ p] exI [of _ ?launch] exI [of _ result] exI [of _ "[]"]
          exI [of _ terms]) auto
  next
    case (execute_ran bufs w1 pbs terms0 w2 first others w3)
    from inputs [OF execute_ran(2,3)] obtain p where
      p: "calls w2 = calls w @ p"
        "\<forall>c \<in> set p. c = CLookupDevice ?id \<or>
          (\<exists>data sh device. c = CBufferFromHostBuffer data sh device) \<or>
          (\<exists>pb. c = CBlockHostUntilReady pb)"
      by blast
    let ?launch = "[CExecute (executable this) [pbs] ?opts]"
    let ?w3 = "invoke (CExecute (executable this) [pbs] ?opts) w2"
    from UnpackResult_success [OF execute_ran(5)] obtain terms where
      terms: "ret = nif_ok (TTuple [enif_make_list_from_array terms, TInt 0])"
        "keep \<longrightarrow> terms = map (\<lambda>pb. TBufferResource (?mk pb)) first \<and>
           calls w3 = calls ?w3 \<and> resources w3 = resources ?w3 @ map ?mk first"
        "\<not> keep \<longrightarrow>
           (\<exists>bins. length bins = length first \<and> terms = map TBinary bins \<and>
              (\<forall>i < length first. \<exists>wi.
                 calls wi = calls ?w3 @ concat (map ?triple (take i first)) \<and>
                 fst (ToBinary ?rt (?mk (first ! i)) (- 1) wi) = Inr (TBinary (bins ! i)))) \<and>
           calls w3 = calls ?w3 @ concat (map ?triple first) \<and> resources w3 = resources ?w3"
      by blast
    have w3: "calls ?w3 = calls w @ p @ ?launch"
      using p(1) by (simp add: calls_invoke)
    have copied: "\<not> keep \<longrightarrow>
           (\<exists>bins. length bins = length first \<and> terms = map TBinary bins \<and>
              (\<forall>i < length first. \<exists>wi.
                 calls wi = calls w @ p @ ?launch @ concat (map ?triple (take i first)) \<and>
                 fst (ToBinary ?rt (?mk (first ! i)) (- 1) wi) = Inr (TBinary (bins ! i))))"
      using terms(3) unfolding w3 by simp
    have log: "calls w' = calls w @ p @ ?launch @
        (if keep then [] else concat (map ?triple first)) @ map CDestroy (concat others)"
      using terms(2,3) p(1) execute_ran(6)
      by (cases keep) (simp_all add: calls_invoke calls_destroy_all)
    have kept: "keep \<longrightarrow> terms = map (\<lambda>pb. TBufferResource (?mk pb)) first \<and>
        (\<forall>pb \<in> set first. ?mk pb \<in> set (resources w'))"
      using terms(2) execute_ran(6) by (auto simp: resources_destroy_all)
    have exec: "rt_Execute ?rt (calls w @ p) (executable this) [pbs] ?opts = Inr (first # others)"
      using execute_ran(4) p(1) by simp
    show ?thesis
      using log p(2) terms(1) kept copied execute_ran(1) exec
      by (intro exI [of _ p] exI [of _ ?launch] exI [of _ first] exI [of _ "concat others"]
          exI [of _ terms]) auto
  qed simp_all
qed

lemmas run_unfold =
  Run_def UnpackRunArguments_def BufferFromBinary_eq UnpackResult_eq ToBinary_eq
  ASSIGN_OR_RETURN_def EFFECT_OR_RETURN_def return_def fail_def
  LookupDevice_def ExecutePortable_def Execute_def BlockHostUntilReady_def
  PjRt_BlockHostUntilReady_def make_buffer_def delete_ExlaBuffer_def Destroy_def invoke_def
  enif_make_list_from_array_def enif_get_tuple_def tuple_elem_def get_binary_def get_shape_def
  get_buffer_def nif_ok_def CopyLiteralToBinary_def size_bytes_def MakeShape_def Let_def
  sample_client_def sample_runtime_def empty_world_def


lemma sample_run:
  "Run \<lparr>executable = PjRtExecutable 0, fingerprint = None, exe_client = sample_client\<rparr>
     (enif_make_list_from_array
        [TTuple [TBinary [1, 2, 3, 4], TShapeResource (MakeShape F32 [1])]])
     False 0 empty_world =
   (Inr (nif_ok (TTuple [enif_make_list_from_array [TBinary [1, 2, 3, 4]], TInt 0])),
    \<lparr>calls = [CLookupDevice 0,
              CBufferFromHostBuffer [1, 2, 3, 4] (MakeShape F32 [1]) (PjRtDevice 0),
              CBlockHostUntilReady (PjRtBuffer 1 (MakeShape F32 [1])),
              CLookupDevice 0,
              CExecutePortable (PjRtExecutable 0) [PjRtBuffer 1 (MakeShape F32 [1])] (PjRtDevice 0)
                \<lparr>untuple_result = True, strict_shape_checking = False\<rparr>,
              CBlockHostUntilReady (PjRtBuffer 4 (MakeShape F32 [1])),
              CToLiteral (PjRtBuffer 4 (MakeShape F32 [1])),
              CDestroy (PjRtBuffer 4 (MakeShape F32 [1]))],
      resources = [\<lparr>buffer = PjRtBuffer 1 (MakeShape F32 [1]), release_after_run = True\<rparr>]\<rparr>)"
  by (simp add: run_unfold word_sless_alt)

lemma sample_run_default:
  "Run \<lparr>executable = PjRtExecutable 0, fingerprint = None, exe_client = sample_client\<rparr>
     (enif_make_list_from_array
        [TBufferResource \<lparr>buffer = PjRtBuffer 9 (MakeShape F32 [1]), release_after_run = False\<rparr>,
         TTuple [TBinary [1, 2, 3, 4], TShapeResource (MakeShape F32 [1])]])
     True (- 1) empty_world =
   (Inr (nif_ok (TTuple [enif_make_list_from_array
           [TBufferResource \<lparr>buffer = PjRtBuffer 3 (MakeShape F32 [1]), release_after_run = False\<rparr>],
         TInt 0])),
    \<lparr>calls = [CLookupDevice 0,
              CBufferFromHostBuffer [1, 2, 3, 4] (MakeShape F32 [1]) (PjRtDevice 0),
              CBlockHostUntilReady (PjRtBuffer 1 (MakeShape F32 [1])),
              CExecute (PjRtExecutable 0)
                [[PjRtBuffer 9 (MakeShape F32 [1]), PjRtBuffer 1 (MakeShape F32 [1])]]
                \<lparr>untuple_result = True, strict_shape_checking = False\<rparr>],
      resources = [\<lparr>buffer = PjRtBuffer 1 (MakeShape F32 [1]), release_after_run = True\<rparr>,
                   \<lparr>buffer = PjRtBuffer 3 (MakeShape F32 [1]), release_after_run = False\<rparr>]\<rparr>)"
  by (simp add: run_unfold)



lemma UnpackRunArguments_success:
  assumes "UnpackRunArguments arguments cl device_id w = (Inr bufs, w1)"
  shows "\<exists>args. arguments = enif_make_list_from_array args \<and>
           list_all2 (\<lambda>arg buf. arg = TBufferResource buf \<or>
              (\<exists>data sh extra device p t.
                 arg = TTuple (TBinary data # TShapeResource sh # extra) \<and>
                 rt_LookupDevice (client cl) device_id = Inr device \<and>
                 rt_BufferFromHostBuffer (client cl) (calls w @ p @ [CLookupDevice device_id])
                   data sh device = Inr (buffer buf) \<and>
                 release_after_run buf \<and>
                 calls w1 = calls w @ p @
                   [CLookupDevice device_id, CBufferFromHostBuffer data sh device] @ t))
             args bufs"
proof -
  from assms obtain n where n: "enif_get_list_length arguments = Some n"
    and loop: "UnpackRunArguments_loop cl arguments device_id [] w = (Inr bufs, w1)"
    by (auto simp: UnpackRunArguments_def split: option.splits)
  from proper_list_is_array [OF n] obtain args where
    args: "arguments = enif_make_list_from_array args"
    by blast
  from UnpackRunArguments_loop_success [OF loop [unfolded args]] args show ?thesis
    by auto
qed

subsection \<open>Input buffers of a run\<close>

lemma Run_after_decode:
  assumes run: "Run this arguments keep device_id w = (r, w')"
    and decoded: "UnpackRunArguments arguments (exe_client this)
                    (if 0 \<le> device_id then device_id else 0) w = (Inr input_buffers, w1)"
  shows "case Run_loop (client (exe_client this)) input_buffers [] [] w1 of
           (Inl e, w2) \<Rightarrow>
             r = Inl e \<and> w' = w2 \<and>
             (\<forall>exe pbs device opts.
                CExecutePortable exe pbs device opts \<notin> set (calls_since w w')) \<and>
             (\<forall>exe ins opts. CExecute exe ins opts \<notin> set (calls_since w w'))
         | (Inr inputs, w2) \<Rightarrow>
             (\<forall>exe pbs device opts.
                CExecutePortable exe pbs device opts \<notin> set (calls_since w w2)) \<and>
             (\<forall>exe ins opts. CExecute exe ins opts \<notin> set (calls_since w w2)) \<and>
             (\<exists>later. calls w' = calls w2 @ later) \<and>
             (\<exists>rs. resources w' = resources w2 @ rs)"
proof -
  let ?rt = "client (exe_client this)"
  from UnpackRunArguments_log [OF decoded] obtain cs1 where
    cs1: "calls w1 = calls w @ cs1"
      "\<forall>c \<in> set cs1. c = CLookupDevice (if 0 \<le> device_id then device_id else 0) \<or>
          (\<exists>data sh device. c = CBufferFromHostBuffer data sh device \<and>
             rt_LookupDevice (client (exe_client this))
               (if 0 \<le> device_id then device_id else 0) = Inr device)"
    by blast
  obtain l w2 where l: "Run_loop ?rt input_buffers [] [] w1 = (l, w2)"
    by (cases "Run_loop ?rt input_buffers [] [] w1")
  from Run_loop_log [OF l] obtain cs2 rs2 where
    cs2: "calls w2 = calls w1 @ cs2" "\<forall>c \<in> set cs2. \<exists>pb. c = CBlockHostUntilReady pb"
      "resources w2 = resources w1 @ rs2"
    by blast
  have since2: "calls_since w w2 = cs1 @ cs2"
    using cs1(1) cs2(1) by (simp add: calls_since_def)
  have quiet: "(\<forall>exe pbs device opts.
                CExecutePortable exe pbs device opts \<notin> set (calls_since w w2)) \<and>
             (\<forall>exe ins opts. CExecute exe ins opts \<notin> set (calls_since w w2))"
    unfolding since2 using cs1(2) cs2(2) by auto
  show ?thesis
  proof (cases l)
    case (Inl e)
    from run have "r = Inl e \<and> w' = w2"
    proof (cases rule: Run_cases)
      case (wait_failed bufs w1' e')
      with decoded l Inl show ?thesis by simp
    qed (use decoded l Inl in auto)
    with l Inl quiet show ?thesis
      by simp
  next
    case (Inr inputs)
    obtain pbs terms where inputs: "inputs = (pbs, terms)"
      by (cases inputs)
    have later: "(\<exists>later. calls w' = calls w2 @ later) \<and> (\<exists>rs. resources w' = resources w2 @ rs)"
      using run
    proof (cases rule: Run_cases)
      case (lookup_failed bufs w1' pbs' terms' w2' e)
      with decoded l Inr inputs show ?thesis
        by (simp add: calls_invoke resources_invoke)
    next
      case (portable_failed bufs w1' pbs' terms' w2' device e)
      with decoded l Inr inputs show ?thesis
        by (simp add: calls_invoke resources_invoke)
    next
      case (portable_ran bufs w1' pbs' terms' w2' device result)
      from UnpackResult_log [OF portable_ran(6)] obtain cs rs where
        "calls w' = calls (invoke (CExecutePortable (executable this) pbs' device
                      \<lparr>untuple_result = True, strict_shape_checking = False\<rparr>)
              (invoke (CLookupDevice device_id) w2')) @ cs"
        "resources w' = resources (invoke (CExecutePortable (executable this) pbs' device
                      \<lparr>untuple_result = True, strict_shape_checking = False\<rparr>)
              (invoke (CLookupDevice device_id) w2')) @ rs"
        by blast
      with portable_ran decoded l Inr inputs show ?thesis
        by (simp add: calls_invoke resources_invoke)
    next
      case (execute_failed bufs w1' pbs' terms' w2' e)
      with decoded l Inr inputs show ?thesis
        by (simp add: calls_invoke resources_invoke)
    next
      case (no_replica bufs w1' pbs' terms' w2')
      with decoded l Inr inputs show ?thesis
        by (simp add: calls_invoke resources_invoke)
    next
      case (execute_ran bufs w1' pbs' terms' w2' first others w3)
      from UnpackResult_log [OF execute_ran(5)] obtain cs rs where
        "calls w3 = calls (invoke (CExecute (executable this) [pbs']
                    \<lparr>untuple_result = True, strict_shape_checking = False\<rparr>) w2') @ cs"
        "resources w3 = resources (invoke (CExecute (executable this) [pbs']
                    \<lparr>untuple_result = True, strict_shape_checking = False\<rparr>) w2') @ rs"
        by blast
      with execute_ran decoded l Inr inputs show ?thesis
        by (simp add: calls_invoke resources_invoke calls_destroy_all resources_destroy_all)
    qed (use decoded l Inr in auto)
    with l Inr quiet show ?thesis
      by simp
  qed
qed

text \<open>
  C4. In every run: if decoding the arguments fails, the run fails with that status and
  no execution has been started. Otherwise let \<open>input_buffers\<close> be the decoded
  buffers; each is the handle the caller passed or, for an argument given as host bytes
  and shape, a new buffer tagged \<open>release_after_run\<close>. If the loop over the inputs
  fails, the run fails with that status and no execution has been started. If the loop
  completes, then at that point no execution call of this run has been made, and every
  tagged input buffer has been waited for (the wait returned OK) and is among the
  tracked resources; everything the run does afterwards only extends the log, and every
  tagged input buffer is still tracked in the final world, whether the run then
  succeeds or fails at device lookup, execution or readback.
\<close>

theorem Run_materialized_inputs_tracked:
  assumes run: "Run this arguments keep device_id w = (r, w')"
  shows "case UnpackRunArguments arguments (exe_client this)
                (if 0 \<le> device_id then device_id else 0) w of
           (Inl e, w1) \<Rightarrow>
             r = Inl e \<and> w' = w1 \<and>
             (\<forall>exe pbs device opts.
                CExecutePortable exe pbs device opts \<notin> set (calls_since w w')) \<and>
             (\<forall>exe ins opts. CExecute exe ins opts \<notin> set (calls_since w w'))
         | (Inr input_buffers, w1) \<Rightarrow>
             (\<exists>args. arguments = enif_make_list_from_array args \<and>
                list_all2 (\<lambda>arg b. arg = TBufferResource b \<or>
                   (\<exists>data sh extra. arg = TTuple (TBinary data # TShapeResource sh # extra)) \<and>
                   release_after_run b) args input_buffers) \<and>
             (case Run_loop (client (exe_client this)) input_buffers [] [] w1 of
                (Inl e, w2) \<Rightarrow>
                  r = Inl e \<and> w' = w2 \<and>
                  (\<forall>exe pbs device opts.
                     CExecutePortable exe pbs device opts \<notin> set (calls_since w w')) \<and>
                  (\<forall>exe ins opts. CExecute exe ins opts \<notin> set (calls_since w w'))
              | (Inr inputs, w2) \<Rightarrow>
                  (\<forall>exe pbs device opts.
                     CExecutePortable exe pbs device opts \<notin> set (calls_since w w2)) \<and>
                  (\<forall>exe ins opts. CExecute exe ins opts \<notin> set (calls_since w w2)) \<and>
                  (\<exists>later. calls w' = calls w2 @ later) \<and>
                  (\<forall>buf \<in> set input_buffers. release_after_run buf \<longrightarrow>
                     buf \<in> set (resources w2) \<and>
                     (\<exists>p t. calls w2 = calls w1 @ p @ CBlockHostUntilReady (buffer buf) # t \<and>
                        rt_BlockHostUntilReady (client (exe_client this)) (calls w1 @ p)
                          (buffer buf) = OK) \<and>
                     buf \<in> set (resources w')))"
proof -
  let ?rt = "client (exe_client this)"
  let ?id = "if 0 \<le> device_id then device_id else 0"
  obtain d w1 where d: "UnpackRunArguments arguments (exe_client this) ?id w = (d, w1)"
    by (cases "UnpackRunArguments arguments (exe_client this) ?id w")
  show ?thesis
  proof (cases d)
    case (Inl e)
    from run have "r = Inl e \<and> w' = w1"
    proof (cases rule: Run_cases)
      case (decode_failed e')
      with d Inl show ?thesis by simp
    qed (use d Inl in auto)
    moreover from UnpackRunArguments_log [OF d] obtain cs where
      "calls w1 = calls w @ cs"
      "\<forall>c \<in> set cs. c = CLookupDevice ?id \<or>
          (\<exists>data sh device. c = CBufferFromHostBuffer data sh device \<and>
             rt_LookupDevice (client (exe_client this)) ?id = Inr device)"
      by blast
    then have "(\<forall>exe pbs device opts.
                CExecutePortable exe pbs device opts \<notin> set (calls_since w w1)) \<and>
             (\<forall>exe ins opts. CExecute exe ins opts \<notin> set (calls_since w w1))"
      by (auto simp: calls_since_def)
    ultimately show ?thesis
      using d Inl by simp
  next
    case (Inr input_buffers)
    note decoded = d [unfolded Inr]
    from UnpackRunArguments_success [OF decoded] obtain args where
      args: "arguments = enif_make_list_from_array args"
      and rel: "list_all2 (\<lambda>arg buf. arg = TBufferResource buf \<or>
                (\<exists>data sh extra device p t.
                   arg = TTuple (TBinary data # TShapeResource sh # extra) \<and>
                   rt_LookupDevice (client (exe_client this)) ?id = Inr device \<and>
                   rt_BufferFromHostBuffer (client (exe_client this))
                     (calls w @ p @ [CLookupDevice ?id]) data sh device = Inr (buffer buf) \<and>
                   release_after_run buf \<and>
                   calls w1 = calls w @ p @
                     [CLookupDevice ?id, CBufferFromHostBuffer data sh device] @ t))
               args input_buffers"
      by blast
    have "list_all2 (\<lambda>arg b. arg = TBufferResource b \<or>
                 (\<exists>data sh extra. arg = TTuple (TBinary data # TShapeResource sh # extra)) \<and>
                 release_after_run b) args input_buffers"
      using rel by (rule list_all2_mono) blast
    with args have tagged: "\<exists>args. arguments = enif_make_list_from_array args \<and>
              list_all2 (\<lambda>arg b. arg = TBufferResource b \<or>
                 (\<exists>data sh extra. arg = TTuple (TBinary data # TShapeResource sh # extra)) \<and>
                 release_after_run b) args input_buffers"
      by blast
    obtain l w2 where l: "Run_loop ?rt input_buffers [] [] w1 = (l, w2)"
      by (cases "Run_loop ?rt input_buffers [] [] w1")
    note phase = Run_after_decode [OF run decoded, unfolded l prod.case]
    have inner: "case Run_loop ?rt input_buffers [] [] w1 of
        (Inl e, w2) \<Rightarrow>
          r = Inl e \<and> w' = w2 \<and>
          (\<forall>exe pbs device opts.
             CExecutePortable exe pbs device opts \<notin> set (calls_since w w')) \<and>
          (\<forall>exe ins opts. CExecute exe ins opts \<notin> set (calls_since w w'))
      | (Inr inputs, w2) \<Rightarrow>
          (\<forall>exe pbs device opts.
             CExecutePortable exe pbs device opts \<notin> set (calls_since w w2)) \<and>
          (\<forall>exe ins opts. CExecute exe ins opts \<notin> set (calls_since w w2)) \<and>
          (\<exists>later. calls w' = calls w2 @ later) \<and>
          (\<forall>buf \<in> set input_buffers. release_after_run buf \<longrightarrow>
             buf \<in> set (resources w2) \<and>
             (\<exists>p t. calls w2 = calls w1 @ p @ CBlockHostUntilReady (buffer buf) # t \<and>
                rt_BlockHostUntilReady ?rt (calls w1 @ p) (buffer buf) = OK) \<and>
             buf \<in> set (resources w'))"
    proof (cases l)
      case (Inl e)
      with phase l show ?thesis by auto
    next
      case (Inr inputs)
      obtain pbs terms where inputs: "inputs = (pbs, terms)"
        by (cases inputs)
      from phase Inr obtain rs where
        quiet: "\<forall>exe pbs device opts.
             CExecutePortable exe pbs device opts \<notin> set (calls_since w w2)"
          "\<forall>exe ins opts. CExecute exe ins opts \<notin> set (calls_since w w2)"
          "\<exists>later. calls w' = calls w2 @ later"
        and rs: "resources w' = resources w2 @ rs"
        by auto
      have each: "buf \<in> set (resources w2) \<and>
             (\<exists>p t. calls w2 = calls w1 @ p @ CBlockHostUntilReady (buffer buf) # t \<and>
                rt_BlockHostUntilReady ?rt (calls w1 @ p) (buffer buf) = OK) \<and>
             buf \<in> set (resources w')"
        if "buf \<in> set input_buffers" "release_after_run buf" for buf
        using Run_loop_success [OF l [unfolded Inr inputs]] that rs by auto
      with quiet l Inr show ?thesis
        by simp
    qed
    with tagged d \<open>d = Inr input_buffers\<close> show ?thesis
      by simp
  qed
qed

theorem Run_materialized_inputs_tracked_witness:
  "\<lparr>buffer = PjRtBuffer 1 (MakeShape F32 [1]), release_after_run = True\<rparr> \<in>
     set (resources (snd (Run
       \<lparr>executable = PjRtExecutable 0, fingerprint = None, exe_client = sample_client\<rparr>
       (enif_make_list_from_array
          [TTuple [TBinary [1, 2, 3, 4], TShapeResource (MakeShape F32 [1])]])
       False 0 empty_world)))"
proof -
  let ?exe = "\<lparr>executable = PjRtExecutable 0, fingerprint = None, exe_client = sample_client\<rparr>"
  let ?args = "enif_make_list_from_array
          [TTuple [TBinary [1, 2, 3, 4], TShapeResource (MakeShape F32 [1])]]"
  let ?buf = "\<lparr>buffer = PjRtBuffer 1 (MakeShape F32 [1]), release_after_run = True\<rparr>"
  let ?w1 = "\<lparr>calls = [CLookupDevice 0,
                CBufferFromHostBuffer [1, 2, 3, 4] (MakeShape F32 [1]) (PjRtDevice 0)],
              resources = []\<rparr>"
  have run: "Run ?exe ?args False 0 empty_world =
      (fst (Run ?exe ?args False 0 empty_world), snd (Run ?exe ?args False 0 empty_world))"
    by simp
  have decoded: "UnpackRunArguments ?args (exe_client ?exe) (if (0::int) \<le> 0 then 0 else 0)
      empty_world = (Inr [?buf], ?w1)"
    by (simp add: run_unfold)
  have loop: "Run_loop (client (exe_client ?exe)) [?buf] [] [] ?w1 =
      (Inr ([PjRtBuffer 1 (MakeShape F32 [1])], [TBufferResource ?buf]),
       \<lparr>calls = [CLookupDevice 0,
                 CBufferFromHostBuffer [1, 2, 3, 4] (MakeShape F32 [1]) (PjRtDevice 0),
                 CBlockHostUntilReady (PjRtBuffer 1 (MakeShape F32 [1]))],
         resources = [?buf]\<rparr>)"
    by (simp add: run_unfold)
  from Run_materialized_inputs_tracked [OF run]
  show ?thesis
    unfolding decoded prod.case sum.case loop by simp
qed

subsection \<open>Outputs of a run\<close>

lemma CopyLiteralToBinary_all:
  assumes "length (untyped_data lit) < 2 ^ 63"
  shows "CopyLiteralToBinary lit (- 1) = untyped_data lit"
  using CopyLiteralToBinary_eq [OF assms, of "- 1"] by simp

lemma ToBinary_success:
  assumes "fst (ToBinary rt b sz wi) = Inr (TBinary bytes)"
  shows "rt_BlockHostUntilReady rt (calls wi) (buffer b) = OK \<and>
         (\<exists>lit. rt_ToLiteral rt (calls wi @ [CBlockHostUntilReady (buffer b)]) (buffer b) =
                   Inr lit \<and>
                bytes = CopyLiteralToBinary
                  (if LayoutsInShapesEqual
                        (MakeShape (element_type (on_device_shape (buffer b)))
                                   (dimensions (on_device_shape (buffer b))))
                        (literal_shape lit)
                   then lit
                   else rt_Relayout rt lit
                          (MakeShape (element_type (on_device_shape (buffer b)))
                                     (dimensions (on_device_shape (buffer b))))) sz)"
  using assms by (auto simp: ToBinary_eq split: sum.splits)

text \<open>
  C5. A successful run has made exactly one execution call; let \<open>result\<close> be the
  result set taken from its answer. With \<open>keep_on_device\<close> the outputs are the
  resource handles of the buffers of \<open>result\<close>, in order, now tracked, and the run
  has made no \<open>ToLiteral\<close> call at all. Without it the outputs are binaries, one per
  buffer of \<open>result\<close>: after the execution call the log is, buffer by buffer, the
  wait, the readback and the destruction of that buffer; the wait of the i-th buffer
  returned OK, its readback returned a literal, and the i-th binary holds all the bytes
  of that literal (relaid to the host shape when its layout differs), for a literal
  whose size fits \<^verbatim>\<open>int64\<close>. It is also what \<open>ToBinary (-1)\<close> returned for the
  i-th buffer at that point.
\<close>

theorem Run_outputs_kept_or_copied:
  assumes "Run this arguments keep device_id w = (Inr ret, w')"
  shows "\<exists>result before launch after.
           calls_since w w' = before @ [launch] @
             (if keep then []
              else concat (map (\<lambda>pb. [CBlockHostUntilReady pb, CToLiteral pb, CDestroy pb]) result))
             @ map CDestroy after \<and>
           (\<forall>pb. CToLiteral pb \<notin> set before) \<and>
           (0 \<le> device_id \<longrightarrow>
              (\<exists>pbs device.
                 launch = CExecutePortable (executable this) pbs device
                            \<lparr>untuple_result = True, strict_shape_checking = False\<rparr> \<and>
                 rt_ExecutePortable (client (exe_client this)) (calls w @ before)
                   (executable this) pbs device
                   \<lparr>untuple_result = True, strict_shape_checking = False\<rparr> = Inr result \<and>
                 after = [])) \<and>
           (device_id < 0 \<longrightarrow>
              (\<exists>pbs others.
                 launch = CExecute (executable this) [pbs]
                            \<lparr>untuple_result = True, strict_shape_checking = False\<rparr> \<and>
                 rt_Execute (client (exe_client this)) (calls w @ before) (executable this) [pbs]
                   \<lparr>untuple_result = True, strict_shape_checking = False\<rparr> =
                   Inr (result # others) \<and>
                 after = concat others)) \<and>
           (keep \<longrightarrow>
              ret = nif_ok (TTuple [enif_make_list_from_array
                      (map (\<lambda>pb. TBufferResource \<lparr>buffer = pb, release_after_run = False\<rparr>) result),
                    TInt 0]) \<and>
              (\<forall>pb \<in> set result.
                 \<lparr>buffer = pb, release_after_run = False\<rparr> \<in> set (resources w')) \<and>
              (\<forall>pb. CToLiteral pb \<notin> set (calls_since w w'))) \<and>
           (\<not> keep \<longrightarrow>
              (\<exists>bins. ret = nif_ok (TTuple [enif_make_list_from_array (map TBinary bins), TInt 0]) \<and>
                 length bins = length result \<and>
                 (\<forall>i < length result. \<exists>wi lit.
                    calls wi = calls w @ before @ [launch] @
                      concat (map (\<lambda>pb. [CBlockHostUntilReady pb, CToLiteral pb, CDestroy pb])
                                (take i result)) \<and>
                    fst (ToBinary (client (exe_client this))
                           \<lparr>buffer = result ! i, release_after_run = False\<rparr> (- 1) wi) =
                      Inr (TBinary (bins ! i)) \<and>
                    rt_BlockHostUntilReady (client (exe_client this)) (calls wi) (result ! i) = OK \<and>
                    rt_ToLiteral (client (exe_client this)) (calls wi @ [CBlockHostUntilReady (result ! i)])
                      (result ! i) = Inr lit \<and>
                    (length (untyped_data
                       (if LayoutsInShapesEqual
                               (MakeShape (element_type (on_device_shape (result ! i)))
                                          (dimensions (on_device_shape (result ! i))))
                               (literal_shape lit)
                          then lit
                          else rt_Relayout (client (exe_client this)) lit
                                 (MakeShape (element_type (on_device_shape (result ! i)))
                                            (dimensions (on_device_shape (result ! i)))))) < 2 ^ 63 \<longrightarrow>
                     bins ! i = untyped_data
                       (if LayoutsInShapesEqual
                               (MakeShape (element_type (on_device_shape (result ! i)))
                                          (dimensions (on_device_shape (result ! i))))
                               (literal_shape lit)
                          then lit
                          else rt_Relayout (client (exe_client this)) lit
                                 (MakeShape (element_type (on_device_shape (result ! i)))
                                            (dimensions (on_device_shape (result ! i)))))))))"
proof -
  let ?rt = "client (exe_client this)"
  let ?opts = "\<lparr>untuple_result = True, strict_shape_checking = False\<rparr>"
  let ?triple = "\<lambda>pb. [CBlockHostUntilReady pb, CToLiteral pb, CDestroy pb]"
  let ?mk = "\<lambda>pb. \<lparr>buffer = pb, release_after_run = False\<rparr>"
  from Run_success [OF assms] obtain p launch result q terms where
    log: "calls w' = calls w @ p @ launch @
            (if keep then [] else concat (map ?triple result)) @ map CDestroy q"
    and p: "\<forall>c \<in> set p. c = CLookupDevice (if 0 \<le> device_id then device_id else 0) \<or>
              (\<exists>data sh device. c = CBufferFromHostBuffer data sh device) \<or>
              (\<exists>pb. c = CBlockHostUntilReady pb)"
    and ret: "ret = nif_ok (TTuple [enif_make_list_from_array terms, TInt 0])"
    and kept: "keep \<longrightarrow> terms = map (\<lambda>pb. TBufferResource (?mk pb)) result \<and>
              (\<forall>pb \<in> set result. ?mk pb \<in> set (resources w'))"
    and copied: "\<not> keep \<longrightarrow>
              (\<exists>bins. length bins = length result \<and> terms = map TBinary bins \<and>
                 (\<forall>i < length result. \<exists>wi.
                    calls wi = calls w @ p @ launch @ concat (map ?triple (take i result)) \<and>
                    fst (ToBinary ?rt (?mk (result ! i)) (- 1) wi) = Inr (TBinary (bins ! i))))"
    and portable: "0 \<le> device_id \<longrightarrow>
              (\<exists>pbs device.
                 launch = [CLookupDevice device_id,
                           CExecutePortable (executable this) pbs device ?opts] \<and>
                 rt_LookupDevice ?rt device_id = Inr device \<and>
                 rt_ExecutePortable ?rt (calls w @ p @ [CLookupDevice device_id])
                   (executable this) pbs device ?opts = Inr result \<and>
                 q = [])"
    and default: "device_id < 0 \<longrightarrow>
              (\<exists>pbs others.
                 launch = [CExecute (executable this) [pbs] ?opts] \<and>
                 rt_Execute ?rt (calls w @ p) (executable this) [pbs] ?opts =
                   Inr (result # others) \<and>
                 q = concat others)"
    by blast
  define before where "before = (if 0 \<le> device_id then p @ [CLookupDevice device_id] else p)"
  define exec where "exec = last launch"
  have launch: "p @ launch = before @ [exec]"
    using portable default by (cases "0 \<le> device_id") (auto simp: before_def exec_def)
  have quiet: "\<forall>pb. CToLiteral pb \<notin> set before"
    using p by (auto simp: before_def)
  have since: "calls_since w w' = before @ [exec] @
      (if keep then [] else concat (map ?triple result)) @ map CDestroy q"
  proof -
    have "calls w' = calls w @ (p @ launch) @
        (if keep then [] else concat (map ?triple result)) @ map CDestroy q"
      using log by simp
    then show ?thesis
      unfolding launch by (simp add: calls_since_def)
  qed
  have c1: "0 \<le> device_id \<longrightarrow>
      (\<exists>pbs device. exec = CExecutePortable (executable this) pbs device ?opts \<and>
         rt_ExecutePortable ?rt (calls w @ before) (executable this) pbs device ?opts =
           Inr result \<and> q = [])"
    using portable by (auto simp: before_def exec_def)
  have c2: "device_id < 0 \<longrightarrow>
      (\<exists>pbs others. exec = CExecute (executable this) [pbs] ?opts \<and>
         rt_Execute ?rt (calls w @ before) (executable this) [pbs] ?opts = Inr (result # others) \<and>
         q = concat others)"
    using default by (auto simp: before_def exec_def)
  have c3: "keep \<longrightarrow>
      ret = nif_ok (TTuple [enif_make_list_from_array
              (map (\<lambda>pb. TBufferResource (?mk pb)) result), TInt 0]) \<and>
      (\<forall>pb \<in> set result. ?mk pb \<in> set (resources w')) \<and>
      (\<forall>pb. CToLiteral pb \<notin> set (calls_since w w'))"
  proof
    assume keep
    have "exec \<noteq> CToLiteral pb" for pb
      using c1 c2 by (cases "0 \<le> device_id") auto
    with \<open>keep\<close> quiet have "\<forall>pb. CToLiteral pb \<notin> set (calls_since w w')"
      unfolding since by auto
    with \<open>keep\<close> kept ret show "ret = nif_ok (TTuple [enif_make_list_from_array
              (map (\<lambda>pb. TBufferResource (?mk pb)) result), TInt 0]) \<and>
      (\<forall>pb \<in> set result. ?mk pb \<in> set (resources w')) \<and>
      (\<forall>pb. CToLiteral pb \<notin> set (calls_since w w'))"
      by simp
  qed
  have c4: "\<not> keep \<longrightarrow>
      (\<exists>bins. ret = nif_ok (TTuple [enif_make_list_from_array (map TBinary bins), TInt 0]) \<and>
         length bins = length result \<and>
         (\<forall>i < length result. \<exists>wi lit.
                    calls wi = calls w @ before @ [exec] @
                      concat (map (\<lambda>pb. [CBlockHostUntilReady pb, CToLiteral pb, CDestroy pb])
                                (take i result)) \<and>
                    fst (ToBinary ?rt
                           \<lparr>buffer = result ! i, release_after_run = False\<rparr> (- 1) wi) =
                      Inr (TBinary (bins ! i)) \<and>
                    rt_BlockHostUntilReady ?rt (calls wi) (result ! i) = OK \<and>
                    rt_ToLiteral ?rt (calls wi @ [CBlockHostUntilReady (result ! i)])
                      (result ! i) = Inr lit \<and>
                    (length (untyped_data
                       (if LayoutsInShapesEqual
                               (MakeShape (element_type (on_device_shape (result ! i)))
                                          (dimensions (on_device_shape (result ! i))))
                               (literal_shape lit)
                          then lit
                          else rt_Relayout ?rt lit
                                 (MakeShape (element_type (on_device_shape (result ! i)))
                                            (dimensions (on_device_shape (result ! i)))))) < 2 ^ 63 \<longrightarrow>
                     bins ! i = untyped_data
                       (if LayoutsInShapesEqual
                               (MakeShape (element_type (on_device_shape (result ! i)))
                                          (dimensions (on_device_shape (result ! i))))
                               (literal_shape lit)
                          then lit
                          else rt_Relayout ?rt lit
                                 (MakeShape (element_type (on_device_shape (result ! i)))
                                            (dimensions (on_device_shape (result ! i))))))))"
  proof
    assume "\<not> keep"
    with copied obtain bins where
      bins: "length bins = length result" "terms = map TBinary bins"
        "\<forall>i < length result. \<exists>wi.
            calls wi = calls w @ p @ launch @ concat (map ?triple (take i result)) \<and>
            fst (ToBinary ?rt (?mk (result ! i)) (- 1) wi) = Inr (TBinary (bins ! i))"
      by blast
    have shift: "p @ launch @ rest = before @ [exec] @ rest" for rest
      using launch by (metis append.assoc)
    have each: "\<exists>wi lit.
            calls wi = calls w @ before @ [exec] @ concat (map ?triple (take i result)) \<and>
            fst (ToBinary ?rt (?mk (result ! i)) (- 1) wi) = Inr (TBinary (bins ! i)) \<and>
            rt_BlockHostUntilReady ?rt (calls wi) (result ! i) = OK \<and>
            rt_ToLiteral ?rt (calls wi @ [CBlockHostUntilReady (result ! i)]) (result ! i) =
              Inr lit \<and>
            (length (untyped_data
               (if LayoutsInShapesEqual
                               (MakeShape (element_type (on_device_shape (result ! i)))
                                          (dimensions (on_device_shape (result ! i))))
                               (literal_shape lit)
                          then lit
                          else rt_Relayout ?rt lit
                                 (MakeShape (element_type (on_device_shape (result ! i)))
                                            (dimensions (on_device_shape (result ! i)))))) < 2 ^ 63 \<longrightarrow>
             bins ! i = untyped_data
               (if LayoutsInShapesEqual
                               (MakeShape (element_type (on_device_shape (result ! i)))
                                          (dimensions (on_device_shape (result ! i))))
                               (literal_shape lit)
                          then lit
                          else rt_Relayout ?rt lit
                                 (MakeShape (element_type (on_device_shape (result ! i)))
                                            (dimensions (on_device_shape (result ! i))))))"
      if "i < length result" for i
    proof -
      from bins(3) that obtain wi where
        wi: "calls wi = calls w @ p @ launch @ concat (map ?triple (take i result))"
          "fst (ToBinary ?rt (?mk (result ! i)) (- 1) wi) = Inr (TBinary (bins ! i))"
        by blast
      from ToBinary_success [OF wi(2)] obtain lit where
        ready: "rt_BlockHostUntilReady ?rt (calls wi) (result ! i) = OK"
        and lit: "rt_ToLiteral ?rt (calls wi @ [CBlockHostUntilReady (result ! i)]) (result ! i) =
                    Inr lit"
        and bytes: "bins ! i = CopyLiteralToBinary
               (if LayoutsInShapesEqual
                               (MakeShape (element_type (on_device_shape (result ! i)))
                                          (dimensions (on_device_shape (result ! i))))
                               (literal_shape lit)
                          then lit
                          else rt_Relayout ?rt lit
                                 (MakeShape (element_type (on_device_shape (result ! i)))
                                            (dimensions (on_device_shape (result ! i))))) (- 1)"
        by auto
      have "bins ! i = untyped_data
               (if LayoutsInShapesEqual
                               (MakeShape (element_type (on_device_shape (result ! i)))
                                          (dimensions (on_device_shape (result ! i))))
                               (literal_shape lit)
                          then lit
                          else rt_Relayout ?rt lit
                                 (MakeShape (element_type (on_device_shape (result ! i)))
                                            (dimensions (on_device_shape (result ! i)))))"
        if "length (untyped_data
               (if LayoutsInShapesEqual
                               (MakeShape (element_type (on_device_shape (result ! i)))
                                          (dimensions (on_device_shape (result ! i))))
                               (literal_shape lit)
                          then lit
                          else rt_Relayout ?rt lit
                                 (MakeShape (element_type (on_device_shape (result ! i)))
                                            (dimensions (on_device_shape (result ! i)))))) < 2 ^ 63"
        using bytes CopyLiteralToBinary_all [OF that] by simp
      moreover have "calls wi = calls w @ before @ [exec] @ concat (map ?triple (take i result))"
        using wi(1) shift by simp
      ultimately show ?thesis
        using wi(2) ready lit by blast
    qed
    with bins(1,2) ret show "\<exists>bins.
         ret = nif_ok (TTuple [enif_make_list_from_array (map TBinary bins), TInt 0]) \<and>
         length bins = length result \<and>
         (\<forall>i < length result. \<exists>wi lit.
                    calls wi = calls w @ before @ [exec] @
                      concat (map (\<lambda>pb. [CBlockHostUntilReady pb, CToLiteral pb, CDestroy pb])
                                (take i result)) \<and>
                    fst (ToBinary ?rt
                           \<lparr>buffer = result ! i, release_after_run = False\<rparr> (- 1) wi) =
                      Inr (TBinary (bins ! i)) \<and>
                    rt_BlockHostUntilReady ?rt (calls wi) (result ! i) = OK \<and>
                    rt_ToLiteral ?rt (calls wi @ [CBlockHostUntilReady (result ! i)])
                      (result ! i) = Inr lit \<and>
                    (length (untyped_data
                       (if LayoutsInShapesEqual
                               (MakeShape (element_type (on_device_shape (result ! i)))
                                          (dimensions (on_device_shape (result ! i))))
                               (literal_shape lit)
                          then lit
                          else rt_Relayout ?rt lit
                                 (MakeShape (element_type (on_device_shape (result ! i)))
                                            (dimensions (on_device_shape (result ! i)))))) < 2 ^ 63 \<longrightarrow>
                     bins ! i = untyped_data
                       (if LayoutsInShapesEqual
                               (MakeShape (element_type (on_device_shape (result ! i)))
                                          (dimensions (on_device_shape (result ! i))))
                               (literal_shape lit)
                          then lit
                          else rt_Relayout ?rt lit
                                 (MakeShape (element_type (on_device_shape (result ! i)))
                                            (dimensions (on_device_shape (result ! i)))))))"
      by blast
  qed
  from since quiet c1 c2 c3 c4 show ?thesis
    by blast
qed


theorem Run_outputs_kept_or_copied_witness:
  "\<exists>bins. fst (Run \<lparr>executable = PjRtExecutable 0, fingerprint = None, exe_client = sample_client\<rparr>
     (enif_make_list_from_array
        [TTuple [TBinary [1, 2, 3, 4], TShapeResource (MakeShape F32 [1])]])
     False 0 empty_world) =
       Inr (nif_ok (TTuple [enif_make_list_from_array (map TBinary bins), TInt 0])) \<and>
     length bins = 1 \<and> bins ! 0 = [1, 2, 3, 4]"
  using Run_outputs_kept_or_copied [OF sample_run]
  unfolding sample_run
  by (auto simp: sample_client_def sample_runtime_def MakeShape_def)

subsection \<open>Dispatch of a run\<close>

text \<open>
  C3. With \<open>device_id \<ge> 0\<close> a run never calls the default \<open>Execute\<close>; every
  \<open>ExecutePortable\<close> call it makes is for its own executable, on the device that
  lookup of \<open>device_id\<close> returns; and when it succeeds its log is: the calls that
  prepare the inputs, the lookup of \<open>device_id\<close>, one \<open>ExecutePortable\<close> call that
  answered with one result set, and the packing of that set, one output per buffer.
  With \<open>device_id < 0\<close> a run never calls \<open>ExecutePortable\<close>; every \<open>Execute\<close>
  call it makes is for its own executable with a single argument list and no device;
  and when it succeeds the outputs are those of the first result set of the answer,
  one per buffer, the buffers of the other replicas being destroyed.
\<close>

theorem Run_dispatch_by_device_id:
  assumes "Run this arguments keep device_id w = (r, w')"
  shows "(0 \<le> device_id \<longrightarrow>
            (\<forall>exe ins opts. CExecute exe ins opts \<notin> set (calls_since w w')) \<and>
            (\<forall>exe pbs device opts.
               CExecutePortable exe pbs device opts \<in> set (calls_since w w') \<longrightarrow>
               exe = executable this \<and>
               rt_LookupDevice (client (exe_client this)) device_id = Inr device) \<and>
            (\<forall>ret. r = Inr ret \<longrightarrow>
               (\<exists>p pbs device result terms.
                  calls_since w w' = p @
                    [CLookupDevice device_id,
                     CExecutePortable (executable this) pbs device
                       \<lparr>untuple_result = True, strict_shape_checking = False\<rparr>] @
                    (if keep then []
                     else concat (map (\<lambda>pb. [CBlockHostUntilReady pb, CToLiteral pb, CDestroy pb])
                                    result)) \<and>
                  (\<forall>c \<in> set p. c = CLookupDevice device_id \<or>
                     (\<exists>data sh dv. c = CBufferFromHostBuffer data sh dv) \<or>
                     (\<exists>pb. c = CBlockHostUntilReady pb)) \<and>
                  rt_LookupDevice (client (exe_client this)) device_id = Inr device \<and>
                  rt_ExecutePortable (client (exe_client this))
                    (calls w @ p @ [CLookupDevice device_id]) (executable this) pbs device
                    \<lparr>untuple_result = True, strict_shape_checking = False\<rparr> = Inr result \<and>
                  ret = nif_ok (TTuple [enif_make_list_from_array terms, TInt 0]) \<and>
                  length terms = length result \<and>
                  (keep \<longrightarrow> terms =
                     map (\<lambda>pb. TBufferResource \<lparr>buffer = pb, release_after_run = False\<rparr>) result)))) \<and>
         (device_id < 0 \<longrightarrow>
            (\<forall>exe pbs device opts.
               CExecutePortable exe pbs device opts \<notin> set (calls_since w w')) \<and>
            (\<forall>exe ins opts.
               CExecute exe ins opts \<in> set (calls_since w w') \<longrightarrow>
               exe = executable this \<and> (\<exists>pbs. ins = [pbs])) \<and>
            (\<forall>ret. r = Inr ret \<longrightarrow>
               (\<exists>p pbs first others terms.
                  calls_since w w' = p @
                    [CExecute (executable this) [pbs]
                       \<lparr>untuple_result = True, strict_shape_checking = False\<rparr>] @
                    (if keep then []
                     else concat (map (\<lambda>pb. [CBlockHostUntilReady pb, CToLiteral pb, CDestroy pb])
                                    first)) @
                    map CDestroy (concat others) \<and>
                  (\<forall>c \<in> set p. c = CLookupDevice 0 \<or>
                     (\<exists>data sh dv. c = CBufferFromHostBuffer data sh dv) \<or>
                     (\<exists>pb. c = CBlockHostUntilReady pb)) \<and>
                  rt_Execute (client (exe_client this)) (calls w @ p) (executable this) [pbs]
                    \<lparr>untuple_result = True, strict_shape_checking = False\<rparr> =
                    Inr (first # others) \<and>
                  ret = nif_ok (TTuple [enif_make_list_from_array terms, TInt 0]) \<and>
                  length terms = length first \<and>
                  (keep \<longrightarrow> terms =
                     map (\<lambda>pb. TBufferResource \<lparr>buffer = pb, release_after_run = False\<rparr>) first))))"
proof -
  let ?rt = "client (exe_client this)"
  let ?opts = "\<lparr>untuple_result = True, strict_shape_checking = False\<rparr>"
  let ?triple = "\<lambda>pb. [CBlockHostUntilReady pb, CToLiteral pb, CDestroy pb]"
  let ?mk = "\<lambda>pb. \<lparr>buffer = pb, release_after_run = False\<rparr>"
  from Run_log [OF assms] obtain cs where
    cs: "calls w' = calls w @ cs"
    and ok: "\<forall>c \<in> set cs.
              c = CLookupDevice (if 0 \<le> device_id then device_id else 0) \<or>
              (\<exists>data sh device. c = CBufferFromHostBuffer data sh device \<and>
                 rt_LookupDevice ?rt (if 0 \<le> device_id then device_id else 0) = Inr device) \<or>
              (\<exists>pb. c = CBlockHostUntilReady pb) \<or>
              (\<not> keep \<and> (\<exists>pb. c = CToLiteral pb)) \<or>
              (\<exists>pb. c = CDestroy pb) \<or>
              (0 \<le> device_id \<and>
                 (\<exists>pbs device. c = CExecutePortable (executable this) pbs device ?opts \<and>
                    rt_LookupDevice ?rt device_id = Inr device)) \<or>
              (device_id < 0 \<and> (\<exists>pbs. c = CExecute (executable this) [pbs] ?opts))"
    by blast
  have since: "calls_since w w' = cs"
    using cs by (rule calls_since_append)
  have no_default: "CExecute exe ins opts \<notin> set cs" if "0 \<le> device_id" for exe ins opts
  proof
    assume "CExecute exe ins opts \<in> set cs"
    with ok have "device_id < 0" by fastforce
    with that show False by simp
  qed
  have portable: "exe = executable this \<and> rt_LookupDevice ?rt device_id = Inr device"
    if "CExecutePortable exe pbs device opts \<in> set cs" for exe pbs device opts
    using ok that by fastforce
  have no_portable: "CExecutePortable exe pbs device opts \<notin> set cs"
    if "device_id < 0" for exe pbs device opts
  proof
    assume "CExecutePortable exe pbs device opts \<in> set cs"
    with ok have "0 \<le> device_id" by fastforce
    with that show False by simp
  qed
  have default: "exe = executable this \<and> (\<exists>pbs. ins = [pbs])"
    if "CExecute exe ins opts \<in> set cs" for exe ins opts
    using ok that by fastforce
  have success: "(0 \<le> device_id \<longrightarrow>
        (\<exists>p pbs device result terms.
           cs = p @ [CLookupDevice device_id,
                     CExecutePortable (executable this) pbs device ?opts] @
                (if keep then [] else concat (map ?triple result)) \<and>
           (\<forall>c \<in> set p. c = CLookupDevice device_id \<or>
              (\<exists>data sh dv. c = CBufferFromHostBuffer data sh dv) \<or>
              (\<exists>pb. c = CBlockHostUntilReady pb)) \<and>
           rt_LookupDevice ?rt device_id = Inr device \<and>
           rt_ExecutePortable ?rt (calls w @ p @ [CLookupDevice device_id]) (executable this)
             pbs device ?opts = Inr result \<and>
           ret = nif_ok (TTuple [enif_make_list_from_array terms, TInt 0]) \<and>
           length terms = length result \<and>
           (keep \<longrightarrow> terms = map (\<lambda>pb. TBufferResource (?mk pb)) result))) \<and>
      (device_id < 0 \<longrightarrow>
        (\<exists>p pbs first others terms.
           cs = p @ [CExecute (executable this) [pbs] ?opts] @
                (if keep then [] else concat (map ?triple first)) @
                map CDestroy (concat others) \<and>
           (\<forall>c \<in> set p. c = CLookupDevice 0 \<or>
              (\<exists>data sh dv. c = CBufferFromHostBuffer data sh dv) \<or>
              (\<exists>pb. c = CBlockHostUntilReady pb)) \<and>
           rt_Execute ?rt (calls w @ p) (executable this) [pbs] ?opts = Inr (first # others) \<and>
           ret = nif_ok (TTuple [enif_make_list_from_array terms, TInt 0]) \<and>
           length terms = length first \<and>
           (keep \<longrightarrow> terms = map (\<lambda>pb. TBufferResource (?mk pb)) first)))"
    if "r = Inr ret" for ret
  proof -
    from Run_success [OF assms [unfolded that]] obtain p launch result q terms where
      log: "calls w' = calls w @ p @ launch @
              (if keep then [] else concat (map ?triple result)) @ map CDestroy q"
      and p: "\<forall>c \<in> set p. c = CLookupDevice (if 0 \<le> device_id then device_id else 0) \<or>
                (\<exists>data sh device. c = CBufferFromHostBuffer data sh device) \<or>
                (\<exists>pb. c = CBlockHostUntilReady pb)"
      and ret: "ret = nif_ok (TTuple [enif_make_list_from_array terms, TInt 0])"
      and kept: "keep \<longrightarrow> terms = map (\<lambda>pb. TBufferResource (?mk pb)) result \<and>
                (\<forall>pb \<in> set result. ?mk pb \<in> set (resources w'))"
      and copied: "\<not> keep \<longrightarrow>
                (\<exists>bins. length bins = length result \<and> terms = map TBinary bins \<and>
                   (\<forall>i < length result. \<exists>wi.
                      calls wi = calls w @ p @ launch @ concat (map ?triple (take i result)) \<and>
                      fst (ToBinary ?rt (?mk (result ! i)) (- 1) wi) = Inr (TBinary (bins ! i))))"
      and one: "0 \<le> device_id \<longrightarrow>
                (\<exists>pbs device.
                   launch = [CLookupDevice device_id,
                             CExecutePortable (executable this) pbs device ?opts] \<and>
                   rt_LookupDevice ?rt device_id = Inr device \<and>
                   rt_ExecutePortable ?rt (calls w @ p @ [CLookupDevice device_id])
                     (executable this) pbs device ?opts = Inr result \<and>
                   q = [])"
      and all: "device_id < 0 \<longrightarrow>
                (\<exists>pbs others.
                   launch = [CExecute (executable this) [pbs] ?opts] \<and>
                   rt_Execute ?rt (calls w @ p) (executable this) [pbs] ?opts =
                     Inr (result # others) \<and>
                   q = concat others)"
      by blast
    have len: "length terms = length result"
      using kept copied by (cases keep) auto
    have cs_eq: "cs = p @ launch @ (if keep then [] else concat (map ?triple result)) @
        map CDestroy q"
      using log cs by simp
    show ?thesis
    proof (cases "0 \<le> device_id")
      case True
      with one obtain pbs device where
        "launch = [CLookupDevice device_id, CExecutePortable (executable this) pbs device ?opts]"
        "rt_LookupDevice ?rt device_id = Inr device"
        "rt_ExecutePortable ?rt (calls w @ p @ [CLookupDevice device_id])
           (executable this) pbs device ?opts = Inr result"
        "q = []"
        by blast
      with True cs_eq p ret len kept show ?thesis
        by (intro conjI impI exI [of _ p] exI [of _ pbs] exI [of _ device] exI [of _ result]
            exI [of _ terms]) simp_all
    next
      case False
      with all obtain pbs others where
        "launch = [CExecute (executable this) [pbs] ?opts]"
        "rt_Execute ?rt (calls w @ p) (executable this) [pbs] ?opts = Inr (result # others)"
        "q = concat others"
        by auto
      with False cs_eq p ret len kept show ?thesis
        by (intro conjI impI exI [of _ p] exI [of _ pbs] exI [of _ result] exI [of _ others]
            exI [of _ terms]) simp_all
    qed
  qed
  show ?thesis
    unfolding since using no_default portable no_portable default success by blast
qed


theorem Run_dispatch_by_device_id_witness:
  "(\<exists>p pbs device result.
      calls_since empty_world
        (snd (Run \<lparr>executable = PjRtExecutable 0, fingerprint = None, exe_client = sample_client\<rparr>
           (enif_make_list_from_array
              [TTuple [TBinary [1, 2, 3, 4], TShapeResource (MakeShape F32 [1])]])
           False 0 empty_world)) =
        p @ [CLookupDevice 0,
             CExecutePortable (PjRtExecutable 0) pbs device
               \<lparr>untuple_result = True, strict_shape_checking = False\<rparr>] @
        concat (map (\<lambda>pb. [CBlockHostUntilReady pb, CToLiteral pb, CDestroy pb]) result) \<and>
      rt_LookupDevice sample_runtime 0 = Inr device) \<and>
   (\<exists>p pbs first others.
      calls_since empty_world
        (snd (Run \<lparr>executable = PjRtExecutable 0, fingerprint = None, exe_client = sample_client\<rparr>
           (enif_make_list_from_array
              [TBufferResource
                 \<lparr>buffer = PjRtBuffer 9 (MakeShape F32 [1]), release_after_run = False\<rparr>,
               TTuple [TBinary [1, 2, 3, 4], TShapeResource (MakeShape F32 [1])]])
           True (- 1) empty_world)) =
        p @ [CExecute (PjRtExecutable 0) [pbs]
               \<lparr>untuple_result = True, strict_shape_checking = False\<rparr>] @
        map CDestroy (concat others) \<and>
      rt_Execute sample_runtime p (PjRtExecutable 0) [pbs]
        \<lparr>untuple_result = True, strict_shape_checking = False\<rparr> = Inr (first # others))"
proof
  show "\<exists>p pbs device result.
      calls_since empty_world
        (snd (Run \<lparr>executable = PjRtExecutable 0, fingerprint = None, exe_client = sample_client\<rparr>
           (enif_make_list_from_array
              [TTuple [TBinary [1, 2, 3, 4], TShapeResource (MakeShape F32 [1])]])
           False 0 empty_world)) =
        p @ [CLookupDevice 0,
             CExecutePortable (PjRtExecutable 0) pbs device
               \<lparr>untuple_result = True, strict_shape_checking = False\<rparr>] @
        concat (map (\<lambda>pb. [CBlockHostUntilReady pb, CToLiteral pb, CDestroy pb]) result) \<and>
      rt_LookupDevice sample_runtime 0 = Inr device"
    using Run_dispatch_by_device_id [OF sample_run]
    unfolding sample_run by (simp add: sample_client_def) blast
next
  show "\<exists>p pbs first others.
      calls_since empty_world
        (snd (Run \<lparr>executable = PjRtExecutable 0, fingerprint = None, exe_client = sample_client\<rparr>
           (enif_make_list_from_array
              [TBufferResource
                 \<lparr>buffer = PjRtBuffer 9 (MakeShape F32 [1]), release_after_run = False\<rparr>,
               TTuple [TBinary [1, 2, 3, 4], TShapeResource (MakeShape F32 [1])]])
           True (- 1) empty_world)) =
        p @ [CExecute (PjRtExecutable 0) [pbs]
               \<lparr>untuple_result = True, strict_shape_checking = False\<rparr>] @
        map CDestroy (concat others) \<and>
      rt_Execute sample_runtime p (PjRtExecutable 0) [pbs]
        \<lparr>untuple_result = True, strict_shape_checking = False\<rparr> = Inr (first # others)"
    using Run_dispatch_by_device_id [OF sample_run_default]
    unfolding sample_run_default by (simp add: sample_client_def empty_world_def) blast
qed

subsection \<open>Where the inputs of a run are placed\<close>

text \<open>
  C10. In a run with \<open>device_id < 0\<close> the only device id looked up is 0, and every
  host-to-device transfer goes to the device that lookup of 0 returns. When the run
  reaches execution, the argument list passed to \<open>Execute\<close> has one buffer per
  argument, in order: for a buffer handle the PjRt buffer of that handle, unchanged;
  for a pair of host bytes and shape the buffer the runtime returned for the transfer
  of these bytes with this shape to device 0.
\<close>

theorem Run_default_inputs_on_device_0:
  assumes run: "Run this arguments keep device_id w = (r, w')"
    and default: "device_id < 0"
  shows "(\<forall>i. CLookupDevice i \<in> set (calls_since w w') \<longrightarrow> i = 0) \<and>
         (\<forall>data sh device.
            CBufferFromHostBuffer data sh device \<in> set (calls_since w w') \<longrightarrow>
            rt_LookupDevice (client (exe_client this)) 0 = Inr device) \<and>
         (\<forall>exe ins opts.
            CExecute exe ins opts \<in> set (calls_since w w') \<longrightarrow>
            (\<exists>args pbs.
               arguments = enif_make_list_from_array args \<and> ins = [pbs] \<and>
               list_all2 (\<lambda>arg pb.
                  (\<exists>b. arg = TBufferResource b \<and> pb = buffer b) \<or>
                  (\<exists>data sh extra device p t.
                     arg = TTuple (TBinary data # TShapeResource sh # extra) \<and>
                     rt_LookupDevice (client (exe_client this)) 0 = Inr device \<and>
                     rt_BufferFromHostBuffer (client (exe_client this))
                       (calls w @ p @ [CLookupDevice 0]) data sh device = Inr pb \<and>
                     calls w' = calls w @ p @
                       [CLookupDevice 0, CBufferFromHostBuffer data sh device] @ t))
                 args pbs))"
proof -
  let ?rt = "client (exe_client this)"
  let ?opts = "\<lparr>untuple_result = True, strict_shape_checking = False\<rparr>"
  let ?R = "\<lambda>w' arg pb.
      (\<exists>b. arg = TBufferResource b \<and> pb = buffer b) \<or>
      (\<exists>data sh extra device p t.
         arg = TTuple (TBinary data # TShapeResource sh # extra) \<and>
         rt_LookupDevice ?rt 0 = Inr device \<and>
         rt_BufferFromHostBuffer ?rt (calls w @ p @ [CLookupDevice 0]) data sh device = Inr pb \<and>
         calls w' = calls w @ p @ [CLookupDevice 0, CBufferFromHostBuffer data sh device] @ t)"
  from Run_log [OF run] default obtain cs where
    cs: "calls w' = calls w @ cs"
    and ok: "\<forall>c \<in> set cs.
              c = CLookupDevice 0 \<or>
              (\<exists>data sh device. c = CBufferFromHostBuffer data sh device \<and>
                 rt_LookupDevice ?rt 0 = Inr device) \<or>
              (\<exists>pb. c = CBlockHostUntilReady pb) \<or>
              (\<not> keep \<and> (\<exists>pb. c = CToLiteral pb)) \<or>
              (\<exists>pb. c = CDestroy pb) \<or>
              (\<exists>pbs. c = CExecute (executable this) [pbs] ?opts)"
    by auto
  have since: "calls_since w w' = cs"
    using cs by (rule calls_since_append)
  have lookups: "i = 0" if "CLookupDevice i \<in> set cs" for i
    using ok that by fastforce
  have transfers: "rt_LookupDevice ?rt 0 = Inr device"
    if "CBufferFromHostBuffer data sh device \<in> set cs" for data sh device
    using ok that by fastforce
  have launch: "\<exists>args pbs. arguments = enif_make_list_from_array args \<and> ins = [pbs] \<and>
      list_all2 (?R w') args pbs"
    if exec: "CExecute exe ins opts \<in> set cs" for exe ins opts
  proof -
    have reached: "\<exists>bufs w1 w2 terms tail.
        UnpackRunArguments arguments (exe_client this) 0 w = (Inr bufs, w1) \<and>
        Run_loop ?rt bufs [] [] w1 = (Inr (map buffer bufs, terms), w2) \<and>
        calls w' = calls w2 @ CExecute (executable this) [map buffer bufs] ?opts # tail \<and>
        (\<forall>c \<in> set tail. \<exists>pb. c = CBlockHostUntilReady pb \<or> c = CToLiteral pb \<or>
                                  c = CDestroy pb)"
      using run
    proof (cases rule: Run_cases)
      case (decode_failed e)
      from UnpackRunArguments_log [OF decode_failed(1)] cs exec default show ?thesis
        by auto
    next
      case (wait_failed bufs w1 e)
      from UnpackRunArguments_log [OF wait_failed(1)] Run_loop_log [OF wait_failed(2)]
        cs exec default show ?thesis
        by auto
    next
      case (execute_failed bufs w1 pbs terms w2 e)
      from Run_loop_success [OF execute_failed(3)] have "pbs = map buffer bufs"
        by simp
      with execute_failed default show ?thesis
        by (auto simp: calls_invoke)
    next
      case (no_replica bufs w1 pbs terms w2)
      from Run_loop_success [OF no_replica(3)] have "pbs = map buffer bufs"
        by simp
      with no_replica default show ?thesis
        by (auto simp: calls_invoke)
    next
      case (execute_ran bufs w1 pbs terms w2 first others w3)
      from Run_loop_success [OF execute_ran(3)] have pbs: "pbs = map buffer bufs"
        by simp
      from UnpackResult_log [OF execute_ran(5)] obtain more where
        more: "calls w3 = calls (invoke (CExecute (executable this) [pbs] ?opts) w2) @ more"
          "\<forall>c \<in> set more. \<exists>pb. c = CBlockHostUntilReady pb \<or> c = CToLiteral pb \<or>
                                   c = CDestroy pb"
        by blast
      have d: "UnpackRunArguments arguments (exe_client this) 0 w = (Inr bufs, w1)"
        using execute_ran(2) default by simp
      have l: "Run_loop ?rt bufs [] [] w1 = (Inr (map buffer bufs, terms), w2)"
        using execute_ran(3) pbs by simp
      have "calls w' = calls w2 @ CExecute (executable this) [map buffer bufs] ?opts #
              (more @ map CDestroy (concat others))"
        using more(1) execute_ran(6) pbs by (simp add: calls_invoke calls_destroy_all)
      moreover have "\<forall>c \<in> set (more @ map CDestroy (concat others)).
          \<exists>pb. c = CBlockHostUntilReady pb \<or> c = CToLiteral pb \<or> c = CDestroy pb"
        using more(2) by auto
      ultimately show ?thesis
        using d l by blast
    qed (use default in simp_all)
    then obtain bufs w1 w2 terms tail where
      decoded: "UnpackRunArguments arguments (exe_client this) 0 w = (Inr bufs, w1)"
      and waited: "Run_loop ?rt bufs [] [] w1 = (Inr (map buffer bufs, terms), w2)"
      and log: "calls w' = calls w2 @ CExecute (executable this) [map buffer bufs] ?opts # tail"
      and tail: "\<forall>c \<in> set tail. \<exists>pb. c = CBlockHostUntilReady pb \<or> c = CToLiteral pb \<or>
                                  c = CDestroy pb"
      by blast
    from UnpackRunArguments_log [OF decoded] obtain cs1 where
      cs1: "calls w1 = calls w @ cs1"
        "\<forall>c \<in> set cs1. c = CLookupDevice 0 \<or>
               (\<exists>data sh device. c = CBufferFromHostBuffer data sh device \<and>
                  rt_LookupDevice ?rt 0 = Inr device)"
      by blast
    from Run_loop_log [OF waited] obtain cs2 where
      cs2: "calls w2 = calls w1 @ cs2" "\<forall>c \<in> set cs2. \<exists>pb. c = CBlockHostUntilReady pb"
      by blast
    have cs_eq: "cs = cs1 @ cs2 @ CExecute (executable this) [map buffer bufs] ?opts # tail"
      using cs log cs1(1) cs2(1) by simp
    have ins: "ins = [map buffer bufs]"
      using exec cs1(2) cs2(2) tail unfolding cs_eq by auto
    from UnpackRunArguments_success [OF decoded] obtain args where
      args: "arguments = enif_make_list_from_array args"
      and rel: "list_all2 (\<lambda>arg buf. arg = TBufferResource buf \<or>
              (\<exists>data sh extra device p t.
                 arg = TTuple (TBinary data # TShapeResource sh # extra) \<and>
                 rt_LookupDevice ?rt 0 = Inr device \<and>
                 rt_BufferFromHostBuffer ?rt (calls w @ p @ [CLookupDevice 0])
                   data sh device = Inr (buffer buf) \<and>
                 release_after_run buf \<and>
                 calls w1 = calls w @ p @
                   [CLookupDevice 0, CBufferFromHostBuffer data sh device] @ t))
             args bufs"
      by blast
    have ext: "calls w' = calls w1 @ cs2 @ CExecute (executable this) [map buffer bufs] ?opts # tail"
      using log cs2(1) by simp
    have "list_all2 (\<lambda>arg buf. ?R w' arg (buffer buf)) args bufs"
      using rel
    proof (rule list_all2_mono)
      fix arg buf
      assume "arg = TBufferResource buf \<or>
              (\<exists>data sh extra device p t.
                 arg = TTuple (TBinary data # TShapeResource sh # extra) \<and>
                 rt_LookupDevice ?rt 0 = Inr device \<and>
                 rt_BufferFromHostBuffer ?rt (calls w @ p @ [CLookupDevice 0])
                   data sh device = Inr (buffer buf) \<and>
                 release_after_run buf \<and>
                 calls w1 = calls w @ p @
                   [CLookupDevice 0, CBufferFromHostBuffer data sh device] @ t)"
      then show "?R w' arg (buffer buf)"
      proof
        assume "arg = TBufferResource buf"
        then show ?thesis by blast
      next
        assume "\<exists>data sh extra device p t.
                 arg = TTuple (TBinary data # TShapeResource sh # extra) \<and>
                 rt_LookupDevice ?rt 0 = Inr device \<and>
                 rt_BufferFromHostBuffer ?rt (calls w @ p @ [CLookupDevice 0])
                   data sh device = Inr (buffer buf) \<and>
                 release_after_run buf \<and>
                 calls w1 = calls w @ p @
                   [CLookupDevice 0, CBufferFromHostBuffer data sh device] @ t"
        then obtain data sh extra device p t where
          a: "arg = TTuple (TBinary data # TShapeResource sh # extra)"
             "rt_LookupDevice ?rt 0 = Inr device"
             "rt_BufferFromHostBuffer ?rt (calls w @ p @ [CLookupDevice 0])
                   data sh device = Inr (buffer buf)"
             "calls w1 = calls w @ p @
                   [CLookupDevice 0, CBufferFromHostBuffer data sh device] @ t"
          by blast
        have "calls w' = calls w @ p @ [CLookupDevice 0, CBufferFromHostBuffer data sh device] @
            (t @ cs2 @ CExecute (executable this) [map buffer bufs] ?opts # tail)"
          using ext a(4) by simp
        with a(1,2,3) show ?thesis
          by blast
      qed
    qed
    then have "list_all2 (?R w') args (map buffer bufs)"
      by (simp add: list_all2_map2)
    with args ins show ?thesis
      by blast
  qed
  show ?thesis
    unfolding since using lookups transfers launch by blast
qed


theorem Run_default_inputs_on_device_0_witness:
  "CBufferFromHostBuffer [1, 2, 3, 4] (MakeShape F32 [1]) (PjRtDevice 0) \<in>
     set (calls_since empty_world
       (snd (Run \<lparr>executable = PjRtExecutable 0, fingerprint = None, exe_client = sample_client\<rparr>
          (enif_make_list_from_array
             [TBufferResource
                \<lparr>buffer = PjRtBuffer 9 (MakeShape F32 [1]), release_after_run = False\<rparr>,
              TTuple [TBinary [1, 2, 3, 4], TShapeResource (MakeShape F32 [1])]])
          True (- 1) empty_world))) \<and>
   rt_LookupDevice (client sample_client) 0 = Inr (PjRtDevice 0)"
proof -
  have neg: "(- 1 :: int) < 0"
    by simp
  have made: "CBufferFromHostBuffer [1, 2, 3, 4] (MakeShape F32 [1]) (PjRtDevice 0) \<in>
     set (calls_since empty_world
       (snd (Run \<lparr>executable = PjRtExecutable 0, fingerprint = None, exe_client = sample_client\<rparr>
          (enif_make_list_from_array
             [TBufferResource
                \<lparr>buffer = PjRtBuffer 9 (MakeShape F32 [1]), release_after_run = False\<rparr>,
              TTuple [TBinary [1, 2, 3, 4], TShapeResource (MakeShape F32 [1])]])
          True (- 1) empty_world)))"
    unfolding sample_run_default by (simp add: calls_since_def empty_world_def)
  from Run_default_inputs_on_device_0 [OF sample_run_default neg] made
  show ?thesis
    unfolding sample_run_default by simp
qed

subsection \<open>Device ids\<close>





















end
